theory Spec2Isabelle
  imports Main "HOL-Library.Word" "HOL-Library.Sublist"
begin

section \<open>The outbound SOCKS connector of OnionCat (ocatsocks.c)\<close>

text \<open>
  A shallow embedding of \<^verbatim>\<open>src/ocatsocks.c\<close>. The request queue
  \<^verbatim>\<open>socks_queue_\<close>, an intrusive singly linked list in C, is a HOL list whose
  head is the list's first element; a pointer to a queue element is its position.
  Everything the C code obtains from the operating system or from other modules of the
  daemon (system calls, the hosts table, the clock) is an explicit input, and everything
  it does to the outside (closing descriptors, connecting, writing frames, handing a
  descriptor to the peer registry) is recorded as a list of events.
  The file is modelled as it is compiled with \<^verbatim>\<open>WITH_DNS_LOOKUP\<close> (the UDP probe)
  and \<^verbatim>\<open>DIRECT_CONNECTIONS\<close>; the alternative \<^verbatim>\<open>WITH_DNS_RESOLVER\<close>, which
  replaces the probe by a resolver callback, is not part of the model.
\<close>

subsection \<open>Data model\<close>

type_synonym byte = "8 word"
type_synonym in6_addr = "128 word"
type_synonym time_t = int

text \<open>The states of a request. The enumeration is declared in \<^verbatim>\<open>ocat.h\<close>; these are
  the eight names the source file uses.\<close>

datatype socks_state =
    SOCKS_NEW
  | SOCKS_CONNECTING
  | SOCKS_DNS_SENT
  | SOCKS_4AREQ_SENT
  | SOCKS_5GREET_SENT
  | SOCKS_5REQ_SENT
  | SOCKS_READY
  | SOCKS_DELETE

text \<open>The connection types that \<^verbatim>\<open>CNF(socks5)\<close> is compared with;
  \<open>CONNTYPE_OTHER\<close> stands for any other value.\<close>

datatype conntype = CONNTYPE_SOCKS4A | CONNTYPE_SOCKS5 | CONNTYPE_DIRECT | CONNTYPE_OTHER

record sockaddr_in6 =
  sin6_family :: nat
  sin6_port :: "16 word"
  sin6_addr :: in6_addr

text \<open>\<^verbatim>\<open>SocksQueue_t\<close> without its \<^verbatim>\<open>next\<close> pointer, which is the list structure.
  The C field \<^verbatim>\<open>id\<close> is called \<open>dns_id\<close> here. The C \<^verbatim>\<open>int\<close> fields are unbounded
  integers: no claim below depends on overflow.\<close>

record SocksQueue =
  addr :: in6_addr
  perm :: int
  state :: socks_state
  fd :: int
  retry :: int
  connect_time :: time_t
  restart_time :: time_t
  ns_addr :: sockaddr_in6
  ns_src :: int
  dns_id :: int

type_synonym queue = "SocksQueue list"

text \<open>What \<^verbatim>\<open>ocat.h\<close> (not part of the sources at hand) provides to this file: the
  four tuning constants, taken as parameters, and the name derivation
  \<^verbatim>\<open>ipv6tonion\<close>.\<close>

record ocat_h =
  SOCKS_MAX_RETRY :: int
  SOCKS_DNS_RETRY :: int
  SOCKS_DNS_RETRY_TIMEOUT :: int
  TOR_SOCKS_CONN_TIMEOUT :: int
  ipv6tonion :: "in6_addr \<Rightarrow> string"

text \<open>The fields of the global setup read through \<^verbatim>\<open>CNF(...)\<close>;
  \<open>socksfd0\<close> is \<^verbatim>\<open>CNF(socksfd[0])\<close>, the read end of the request pipe.\<close>

record OcatSetup =
  hosts_lookup :: bool
  dns_lookup :: bool
  domain :: string
  usrname :: string
  socks5 :: conntype
  ocat_dest_port :: int
  ocat_ns_port :: int
  rand_addr :: bool
  socks_dst :: sockaddr_in6
  socksfd0 :: int

text \<open>Events: what the connector does to the outside world.\<close>

datatype event =
    Close int
  | Connect in6_addr int
  | SendDns in6_addr int
  | Write int "byte list"
  | InsertPeer int in6_addr time_t
  | Dprintf int nat SocksQueue
  | Malloc SocksQueue
  | Free in6_addr

text \<open>Results of system calls and of the daemon's other modules. One record of type
  \<open>Env\<close> holds the answers given while one request is handled in one place of the
  reactor (or in one pass of the synchronous probe); different requests and different
  places get different records.\<close>

datatype read_result = ReadError | ReadData "byte list"

datatype connect_result = ConnEstablished | ConnInProgress | ConnError

text \<open>Modelled from the spec: \<^verbatim>\<open>hosts_get_name\<close> (ocathosts.c is not part of the
  sources at hand) either finds no name for the address and returns -1, or copies the name
  into the caller's buffer, when there is one, and returns a non-negative number.\<close>

datatype hosts_result = HostsMiss | HostsHit nat string

record Env =
  time_ret :: time_t
  hosts_get_name :: "in6_addr \<Rightarrow> hosts_result"
  hosts_get_ns :: "(in6_addr \<times> int) option"
  socket_dgram_ret :: int
  rand_ret :: int
  sendto_ret :: int
  getaddrinfo_ret :: "string \<Rightarrow> sockaddr_in6 option"
  socket_stream_ret :: int
  connect_ret :: connect_result
  getsockopt_ret :: "int option"
  write_ret :: int
  read_ret :: read_result
  recvfrom_ret :: "sockaddr_in6 option"
  oc_proc_response_ret :: int

subsection \<open>Sizes of the wire structures\<close>

text \<open>Modelled from the spec: the declarations of \<^verbatim>\<open>SocksHdr_t\<close> and
  \<^verbatim>\<open>Socks5Hdr_t\<close> are in \<^verbatim>\<open>ocat.h\<close>, which is not part of the sources at hand;
  their sizes follow from the wire formats and from the fields this file uses.
  \<^verbatim>\<open>SocksHdr_t\<close> is the header of a SOCKS4 frame: \<^verbatim>\<open>ver\<close> and \<^verbatim>\<open>cmd\<close> (one
  byte each), \<^verbatim>\<open>port\<close> (two bytes) and \<^verbatim>\<open>addr\<close> (four bytes).
  \<^verbatim>\<open>Socks5Hdr_t\<close> has the five one-byte fields that \<^verbatim>\<open>socks5_send_request\<close>
  fills in: \<^verbatim>\<open>ver\<close>, \<^verbatim>\<open>cmd\<close>, \<^verbatim>\<open>rsv\<close>, \<^verbatim>\<open>atyp\<close> and \<^verbatim>\<open>addr\<close>, the
  length byte of a domain name; the name itself is copied to the offset
  \<^verbatim>\<open>sizeof(*s5hdr)\<close>, right behind the length byte.\<close>

definition sizeof_SocksHdr :: nat where
  "sizeof_SocksHdr = 8"

definition sizeof_Socks5Hdr :: nat where
  "sizeof_Socks5Hdr = 5"

definition NI_MAXHOST :: nat where
  "NI_MAXHOST = 1025"

text \<open>\<^verbatim>\<open>read(fd, buf, len)\<close>: -1 on error, otherwise the bytes delivered, at most
  \<open>len\<close> of them.\<close>

definition sys_read :: "read_result \<Rightarrow> nat \<Rightarrow> byte list option" where
  "sys_read r len = (case r of ReadError \<Rightarrow> None | ReadData bs \<Rightarrow> Some (take len bs))"

subsection \<open>Parsing the proxy's replies\<close>

definition socks_rec_response :: "Env \<Rightarrow> SocksQueue \<Rightarrow> int" where
  "socks_rec_response e sq =
     (let len = sizeof_SocksHdr in
      case sys_read (read_ret e) len of
        None \<Rightarrow> -1
      | Some shdr \<Rightarrow>
          if length shdr < len then -1
          else if shdr ! 0 \<noteq> 0 \<or> shdr ! 1 \<noteq> 90 then -1
          else 0)"

definition socks5_greet_response :: "Env \<Rightarrow> SocksQueue \<Rightarrow> int" where
  "socks5_greet_response e sq =
     (let len = 2 in
      case sys_read (read_ret e) len of
        None \<Rightarrow> -1
      | Some buf \<Rightarrow>
          if length buf < len then -1
          else if buf ! 0 \<noteq> 5 \<or> buf ! 1 \<noteq> 0 then -1
          else 0)"

definition socks5_rec_response :: "Env \<Rightarrow> SocksQueue \<Rightarrow> int" where
  "socks5_rec_response e sq =
     (let len = sizeof_Socks5Hdr + 2 + NI_MAXHOST in
      case sys_read (read_ret e) len of
        None \<Rightarrow> -1
      | Some s5hdr \<Rightarrow>
          if length s5hdr < sizeof_Socks5Hdr then -1
          else if s5hdr ! 0 \<noteq> 5 \<or> s5hdr ! 2 \<noteq> 0 then -1
          else if s5hdr ! 1 \<noteq> 0 then -1
          else 0)"

subsection \<open>Reset and reschedule\<close>

definition socks_reset :: "SocksQueue \<Rightarrow> SocksQueue \<times> event list" where
  "socks_reset squeue =
     (let (sq1, evs) = (if fd squeue > 0 then (squeue\<lparr>fd := 0\<rparr>, [Close (fd squeue)])
                        else (squeue, []))
      in (sq1\<lparr>restart_time := 0, state := SOCKS_NEW\<rparr>, evs))"

definition socks_reschedule :: "ocat_h \<Rightarrow> Env \<Rightarrow> SocksQueue \<Rightarrow> SocksQueue \<times> event list" where
  "socks_reschedule h e squeue =
     (let (sq1, evs) = socks_reset squeue
      in (sq1\<lparr>restart_time := time_ret e + TOR_SOCKS_CONN_TIMEOUT h\<rparr>, evs))"

subsection \<open>The request queue\<close>

fun socks_get_req :: "queue \<Rightarrow> in6_addr \<Rightarrow> SocksQueue option" where
  "socks_get_req [] a = None"
| "socks_get_req (squeue # rest) a =
     (if addr squeue = a then Some squeue else socks_get_req rest a)"

text \<open>\<^verbatim>\<open>socks_enqueue\<close>: when \<^verbatim>\<open>malloc\<close> fails the process exits with status 1,
  which is the error value \<open>Inl 1\<close>.\<close>

definition socks_enqueue :: "bool \<Rightarrow> SocksQueue \<Rightarrow> queue \<Rightarrow> int + (queue \<times> event list)" where
  "socks_enqueue malloc_ok sq q =
     (if socks_get_req q (addr sq) \<noteq> None then Inr (q, [])
      else if \<not> malloc_ok then Inl 1
      else Inr (sq # q, [Malloc sq]))"

text \<open>\<^verbatim>\<open>socks_unqueue\<close> removes the element the pointer designates: the one at
  position \<open>i\<close>. A pointer that is not in the queue removes nothing.\<close>

definition socks_unqueue :: "nat \<Rightarrow> queue \<Rightarrow> queue \<times> event list" where
  "socks_unqueue i q =
     (if i < length q then (take i q @ drop (Suc i) q, [Free (addr (q ! i))]) else (q, []))"

subsection \<open>Names of peers\<close>

text \<open>\<^verbatim>\<open>strlcat(dst, src, size)\<close> appends \<open>src\<close> to \<open>dst\<close> as far as a buffer
  of \<open>dsize\<close> bytes, terminating zero included, has room.\<close>

definition strlcat :: "string \<Rightarrow> string \<Rightarrow> nat \<Rightarrow> string" where
  "strlcat dst src dsize =
     (if dsize \<le> length dst then dst else dst @ take (dsize - 1 - length dst) src)"

text \<open>\<^verbatim>\<open>get_hostname(sq, onion, onion_size)\<close>. The flag \<open>onion_given\<close> says that
  the pointer \<^verbatim>\<open>onion\<close> is not \<^verbatim>\<open>NULL\<close>. The result is the return value and the
  content of the buffer afterwards (\<open>None\<close> when nothing was written).\<close>

definition get_hostname ::
  "ocat_h \<Rightarrow> OcatSetup \<Rightarrow> Env \<Rightarrow> SocksQueue \<Rightarrow> bool \<Rightarrow> nat \<Rightarrow> int \<times> string option" where
  "get_hostname h cnf e sq onion_given onion_size =
     (let (ret, onion) =
        (if hosts_lookup cnf then
           (case hosts_get_name e (addr sq) of
              HostsMiss \<Rightarrow> (- 1, None)
            | HostsHit n name \<Rightarrow> (int n, if onion_given then Some name else None))
         else (- 1, None))
      in if ret = - 1 \<and> onion_given
         then (ret, Some (strlcat (ipv6tonion h (addr sq)) (domain cnf) onion_size))
         else (ret, onion))"

definition hostname_addr :: "Env \<Rightarrow> string option \<Rightarrow> int \<times> sockaddr_in6 option" where
  "hostname_addr e name =
     (case name of
        None \<Rightarrow> (- 1, None)
      | Some n \<Rightarrow> (case getaddrinfo_ret e n of None \<Rightarrow> (- 1, None) | Some a \<Rightarrow> (0, Some a)))"

subsection \<open>Writing the handshake frames\<close>

definition bytes_of :: "string \<Rightarrow> byte list" where
  "bytes_of s = map (\<lambda>c. of_nat (of_char c)) s"

definition htons :: "int \<Rightarrow> byte list" where
  "htons v = [word_of_int (v div 256), word_of_int v]"

text \<open>\<^verbatim>\<open>write(fd, buf, len)\<close> and the two checks that follow it in each of the three
  senders: -1 when the call fails or writes less than the frame.\<close>

definition write_frame :: "Env \<Rightarrow> SocksQueue \<Rightarrow> byte list \<Rightarrow> int \<times> event list" where
  "write_frame e sq buf =
     (let len = int (length buf); ret = write_ret e
      in if ret = - 1 then (- 1, [])
         else if ret < len then (- 1, [Write (fd sq) (take (nat ret) buf)])
         else (0, [Write (fd sq) buf]))"

definition socks_send_request :: "ocat_h \<Rightarrow> OcatSetup \<Rightarrow> Env \<Rightarrow> SocksQueue \<Rightarrow> int \<times> event list" where
  "socks_send_request h cnf e sq =
     (let onion = (case snd (get_hostname h cnf e sq True NI_MAXHOST) of
                     None \<Rightarrow> [] | Some n \<Rightarrow> n)
      in write_frame e sq
           ([4, 1] @ htons (ocat_dest_port cnf) @ [0, 0, 0, 1]
            @ bytes_of (usrname cnf) @ [0] @ bytes_of onion @ [0]))"

definition socks5_greet :: "Env \<Rightarrow> SocksQueue \<Rightarrow> int \<times> event list" where
  "socks5_greet e sq = write_frame e sq [5, 1, 0]"

definition socks5_send_request :: "ocat_h \<Rightarrow> OcatSetup \<Rightarrow> Env \<Rightarrow> SocksQueue \<Rightarrow> int \<times> event list" where
  "socks5_send_request h cnf e sq =
     (let onion = (case snd (get_hostname h cnf e sq True NI_MAXHOST) of
                     None \<Rightarrow> [] | Some n \<Rightarrow> n)
      in write_frame e sq
           ([5, 1, 0, 3, of_nat (length onion)] @ bytes_of onion @ htons (ocat_dest_port cnf)))"

subsection \<open>Connecting, activating, the DNS probe\<close>

text \<open>\<^verbatim>\<open>socks_tcp_connect\<close>: \<^verbatim>\<open>connect()\<close> may succeed, fail with
  \<^verbatim>\<open>EINPROGRESS\<close> (both return 0) or fail otherwise (-1). The event names the request
  the attempt is made for.\<close>

definition socks_tcp_connect :: "Env \<Rightarrow> SocksQueue \<Rightarrow> sockaddr_in6 \<Rightarrow> int \<times> event list" where
  "socks_tcp_connect e sq dst =
     (case connect_ret e of
        ConnError \<Rightarrow> (- 1, [Connect (addr sq) (fd sq)])
      | _ \<Rightarrow> (0, [Connect (addr sq) (fd sq)]))"

definition socks_activate_peer :: "Env \<Rightarrow> SocksQueue \<Rightarrow> int \<times> event list" where
  "socks_activate_peer e sq = (0, [InsertPeer (fd sq) (addr sq) (time_ret e - connect_time sq)])"

definition AF_INET6 :: nat where
  "AF_INET6 = 10"

definition socks_dns_req :: "OcatSetup \<Rightarrow> Env \<Rightarrow> SocksQueue \<Rightarrow> int \<times> SocksQueue \<times> event list" where
  "socks_dns_req cnf e sq =
     (let sq0 = sq\<lparr>ns_addr := \<lparr>sin6_family = 0, sin6_port = 0, sin6_addr = 0\<rparr>\<rparr>
      in case hosts_get_ns e of
           None \<Rightarrow> (- 1, sq0, [])
         | Some (ns, src) \<Rightarrow>
             (let sq1 = sq0\<lparr>ns_addr := \<lparr>sin6_family = AF_INET6,
                                        sin6_port = word_of_int (ocat_ns_port cnf),
                                        sin6_addr = ns\<rparr>,
                            ns_src := src\<rparr>;
                  n = sendto_ret e
              in if n = - 1 then (- 1, sq1, []) else (n, sq1, [SendDns (addr sq1) (fd sq1)])))"

definition socks_dns_recv :: "Env \<Rightarrow> SocksQueue \<Rightarrow> int" where
  "socks_dns_recv e sq =
     (case recvfrom_ret e of
        None \<Rightarrow> - 1
      | Some saddr \<Rightarrow>
          if sin6_port saddr \<noteq> sin6_port (ns_addr sq) \<or> sin6_addr saddr \<noteq> sin6_addr (ns_addr sq)
          then - 1
          else oc_proc_response_ret e)"

subsection \<open>The reactor: descriptor sets\<close>

text \<open>An \<^verbatim>\<open>fd_set\<close> is a duplicate-free list of descriptors.
  \<^verbatim>\<open>FD_ISSET\<close> is list membership; on a negative descriptor, where C leaves it
  undefined, it answers no.

  Modelled from the spec: \<^verbatim>\<open>MFD_SET(f, s, m)\<close> is a macro of \<^verbatim>\<open>ocat.h\<close>, which
  is not part of the sources at hand. It registers the descriptor \<open>f\<close> in the set \<open>s\<close>
  for the wait and keeps \<open>m\<close>, from which the first argument of the wait is
  computed, at the largest descriptor registered.\<close>

record fd_sets =
  rset :: "int list"
  wset :: "int list"
  maxfd :: int

definition MFD_SET_rset :: "int \<Rightarrow> fd_sets \<Rightarrow> fd_sets" where
  "MFD_SET_rset f s = s\<lparr>rset := List.insert f (rset s), maxfd := max f (maxfd s)\<rparr>"

definition MFD_SET_wset :: "int \<Rightarrow> fd_sets \<Rightarrow> fd_sets" where
  "MFD_SET_wset f s = s\<lparr>wset := List.insert f (wset s), maxfd := max f (maxfd s)\<rparr>"

subsection \<open>The reactor: the state scan\<close>

text \<open>The end of \<^verbatim>\<open>case SOCKS_NEW\<close>, from the choice of the destination on: the
  destination is the resolved peer name in direct mode and the proxy otherwise; then
  socket, connect, and the transition to \<^verbatim>\<open>SOCKS_CONNECTING\<close>.\<close>

definition new_connect ::
  "ocat_h \<Rightarrow> OcatSetup \<Rightarrow> time_t \<Rightarrow> Env \<Rightarrow> SocksQueue \<Rightarrow> fd_sets
     \<Rightarrow> SocksQueue \<times> fd_sets \<times> event list" where
  "new_connect h cnf t e squeue s =
     (let dst = (if socks5 cnf = CONNTYPE_DIRECT then
                   (case get_hostname h cnf e squeue True NI_MAXHOST of
                      (ret, name) \<Rightarrow>
                        if ret = - 1 then None
                        else (case hostname_addr e name of
                                (r, ss) \<Rightarrow> if r \<noteq> 0 then None else ss))
                 else Some (socks_dst cnf))
      in case dst of
           None \<Rightarrow> (squeue, s, [])
         | Some ss \<Rightarrow>
             (let sq1 = squeue\<lparr>fd := socket_stream_ret e\<rparr>
              in if fd sq1 = - 1 then (sq1, s, [])
                 else
                   (let sq2 = sq1\<lparr>connect_time := t\<rparr>;
                        (r, evs) = socks_tcp_connect e sq2 ss
                    in if r = - 1
                       then (case socks_reschedule h e sq2 of
                               (sq3, evs') \<Rightarrow> (sq3, s, evs @ evs'))
                       else (sq2\<lparr>state := SOCKS_CONNECTING\<rparr>, MFD_SET_wset (fd sq2) s, evs))))"

definition phaseA_new ::
  "ocat_h \<Rightarrow> OcatSetup \<Rightarrow> time_t \<Rightarrow> Env \<Rightarrow> SocksQueue \<Rightarrow> fd_sets
     \<Rightarrow> SocksQueue \<times> fd_sets \<times> event list" where
  "phaseA_new h cnf t e squeue s =
     (if t < restart_time squeue then (squeue, s, [])
      else
        (let sq1 = squeue\<lparr>retry := retry squeue + 1\<rparr>
         in if perm sq1 = 0 \<and> retry sq1 > SOCKS_MAX_RETRY h
            then (sq1\<lparr>state := SOCKS_DELETE\<rparr>, s, [])
            else if dns_lookup cnf \<and> fst (get_hostname h cnf e sq1 False 0) = - 1 \<and> retry sq1 \<le> 1
            then
              (let sq2 = sq1\<lparr>fd := socket_dgram_ret e\<rparr>
               in if fd sq2 \<noteq> - 1 then
                    (let sq3 = sq2\<lparr>dns_id := rand_ret e\<rparr>;
                         (r, sq4, evs) = socks_dns_req cnf e sq3
                     in if r \<noteq> - 1
                        then (sq4\<lparr>state := SOCKS_DNS_SENT, retry := 0,
                                   restart_time := t + SOCKS_DNS_RETRY_TIMEOUT h\<rparr>,
                              MFD_SET_rset (fd sq4) s, evs)
                        else (case new_connect h cnf t e sq4 s of
                                (sq5, s', evs') \<Rightarrow> (sq5, s', evs @ [Close (fd sq4)] @ evs')))
                  else new_connect h cnf t e sq2 s)
            else new_connect h cnf t e sq1 s))"

definition phaseA_dns_sent ::
  "ocat_h \<Rightarrow> OcatSetup \<Rightarrow> time_t \<Rightarrow> Env \<Rightarrow> SocksQueue \<Rightarrow> fd_sets
     \<Rightarrow> SocksQueue \<times> fd_sets \<times> event list" where
  "phaseA_dns_sent h cnf t e squeue s =
     (if t < restart_time squeue then (squeue, MFD_SET_rset (fd squeue) s, [])
      else
        (let (resent, sq1, evs) =
               (if retry squeue < SOCKS_DNS_RETRY h
                then (case socks_dns_req cnf e squeue of (r, sq', evs') \<Rightarrow> (r \<noteq> - 1, sq', evs'))
                else (False, squeue, []))
         in if resent
            then (sq1\<lparr>retry := retry sq1 + 1, restart_time := t + SOCKS_DNS_RETRY_TIMEOUT h\<rparr>,
                  MFD_SET_rset (fd sq1) s, evs)
            else (sq1\<lparr>state := SOCKS_NEW, restart_time := 0, retry := 1\<rparr>, s,
                  evs @ [Close (fd sq1)])))"

text \<open>The \<^verbatim>\<open>switch\<close> of the state scan, for one element. \<^verbatim>\<open>SOCKS_CONNECTING\<close>
  and \<^verbatim>\<open>SOCKS_READY\<close> have no \<^verbatim>\<open>case\<close> of their own and take the
  \<^verbatim>\<open>default\<close> branch.\<close>

definition phaseA_entry ::
  "ocat_h \<Rightarrow> OcatSetup \<Rightarrow> time_t \<Rightarrow> Env \<Rightarrow> SocksQueue \<Rightarrow> fd_sets
     \<Rightarrow> SocksQueue \<times> fd_sets \<times> event list" where
  "phaseA_entry h cnf t e squeue s =
     (case state squeue of
        SOCKS_NEW \<Rightarrow> phaseA_new h cnf t e squeue s
      | SOCKS_4AREQ_SENT \<Rightarrow> (squeue, MFD_SET_rset (fd squeue) s, [])
      | SOCKS_5GREET_SENT \<Rightarrow> (squeue, MFD_SET_rset (fd squeue) s, [])
      | SOCKS_5REQ_SENT \<Rightarrow> (squeue, MFD_SET_rset (fd squeue) s, [])
      | SOCKS_DNS_SENT \<Rightarrow> phaseA_dns_sent h cnf t e squeue s
      | SOCKS_DELETE \<Rightarrow> (squeue, s, [])
      | _ \<Rightarrow> (case socks_reset squeue of (sq', evs) \<Rightarrow> (sq', s, evs)))"

text \<open>The loop over the queue. The element at position \<open>i\<close> is served with the
  answers \<open>es i\<close> of the environment.\<close>

fun phaseA ::
  "ocat_h \<Rightarrow> OcatSetup \<Rightarrow> time_t \<Rightarrow> (nat \<Rightarrow> Env) \<Rightarrow> nat \<Rightarrow> queue \<Rightarrow> fd_sets
     \<Rightarrow> queue \<times> fd_sets \<times> event list" where
  "phaseA h cnf t es i [] s = ([], s, [])"
| "phaseA h cnf t es i (squeue # rest) s =
     (case phaseA_entry h cnf t (es i) squeue s of
        (sq', s', evs) \<Rightarrow>
          (case phaseA h cnf t es (Suc i) rest s' of
             (rest', s'', evs') \<Rightarrow> (sq' # rest', s'', evs @ evs')))"

subsection \<open>The reactor: waiting, the request pipe\<close>

text \<open>Modelled from the spec: \<^verbatim>\<open>oc_select0\<close> (a wrapper of \<^verbatim>\<open>select\<close> that is
  not part of the sources at hand) waits for at most the given time; it returns -1 on
  failure and otherwise the number of ready descriptors, which are what it leaves in the
  two sets. The environment's answer is \<open>None\<close> for the failure, or the descriptors that
  are readable and those that are writable.\<close>

definition oc_select0 :: "(int list \<times> int list) option \<Rightarrow> fd_sets \<Rightarrow> fd_sets" where
  "oc_select0 ready s =
     (case ready of
        None \<Rightarrow> s\<lparr>maxfd := - 1\<rparr>
      | Some (rr, wr) \<Rightarrow>
          (let r' = filter (\<lambda>f. f \<in> set rr) (rset s);
               w' = filter (\<lambda>f. f \<in> set wr) (wset s)
           in \<lparr>rset = r', wset = w', maxfd = int (length r' + length w')\<rparr>))"

text \<open>The field \<^verbatim>\<open>next\<close> of a record is a pointer, here 64 bits wide, and an
  \<^verbatim>\<open>int\<close> has 32 bits. \<^verbatim>\<open>print_socks_queue\<close> stores a descriptor in it by
  \<^verbatim>\<open>(SocksQueue_t*) (intptr_t) fd\<close>, which extends the sign of the \<^verbatim>\<open>int\<close>; the
  reactor takes it out by passing \<^verbatim>\<open>(intptr_t) sq.next\<close> to the parameter
  \<^verbatim>\<open>int fd\<close> of \<^verbatim>\<open>socks_output_queue\<close>, which keeps the low 32 bits.\<close>

type_synonym intptr_t = "64 word"

definition intptr_of_int :: "int \<Rightarrow> intptr_t" where
  "intptr_of_int f = scast (word_of_int f :: 32 word)"

definition int_of_intptr :: "intptr_t \<Rightarrow> int" where
  "int_of_intptr p = sint (ucast p :: 32 word)"

text \<open>What one \<^verbatim>\<open>read\<close> on the pipe delivers: an error, fewer bytes than a record, or
  a whole \<^verbatim>\<open>SocksQueue_t\<close>, given as its \<^verbatim>\<open>next\<close> field (the bits of the pointer,
  0 for \<^verbatim>\<open>NULL\<close>) and its other fields.\<close>

datatype pipe_result = PipeError | PipeShort | PipeRecord intptr_t SocksQueue

definition socks_output_queue :: "int \<Rightarrow> queue \<Rightarrow> event list" where
  "socks_output_queue f q = map (\<lambda>(i, squeue). Dprintf f i squeue) (enumerate 0 q) @ [Write f [0]]"

text \<open>The block \<^verbatim>\<open>check socks request pipe\<close>, once the pipe is known to be
  readable.\<close>

definition read_pipe :: "pipe_result \<Rightarrow> bool \<Rightarrow> queue \<Rightarrow> int + (queue \<times> event list)" where
  "read_pipe p malloc_ok q =
     (case p of
        PipeError \<Rightarrow> Inr (q, [])
      | PipeShort \<Rightarrow> Inr (q, [])
      | PipeRecord nxt sq \<Rightarrow>
          if nxt \<noteq> 0 then Inr (q, socks_output_queue (int_of_intptr nxt) q)
          else if addr sq = 0 then Inr (q, [])
          else socks_enqueue malloc_ok sq q)"

subsection \<open>The reactor: dispatch on ready descriptors\<close>

text \<open>The body of \<^verbatim>\<open>if (FD_ISSET(squeue->fd, &wset))\<close>. The flag in the result says
  that the body was left with \<^verbatim>\<open>continue\<close>, which skips the check of the read set.
  An unknown connection type ends the process with \<^verbatim>\<open>exit(1)\<close>.\<close>

definition dispatch_wset ::
  "ocat_h \<Rightarrow> OcatSetup \<Rightarrow> Env \<Rightarrow> SocksQueue \<Rightarrow> int + (bool \<times> SocksQueue \<times> event list)" where
  "dispatch_wset h cnf e squeue =
     (if state squeue = SOCKS_CONNECTING then
        (case getsockopt_ret e of
           None \<Rightarrow> (case socks_reschedule h e squeue of (sq', evs) \<Rightarrow> Inr (True, sq', evs))
         | Some so_err \<Rightarrow>
             if so_err \<noteq> 0
             then (case socks_reschedule h e squeue of (sq', evs) \<Rightarrow> Inr (True, sq', evs))
             else if socks5 cnf = CONNTYPE_SOCKS4A then
               (case socks_send_request h cnf e squeue of
                  (r, evs) \<Rightarrow>
                    if r = - 1
                    then (case socks_reschedule h e squeue of
                            (sq', evs') \<Rightarrow> Inr (True, sq', evs @ evs'))
                    else Inr (False, squeue\<lparr>state := SOCKS_4AREQ_SENT\<rparr>, evs))
             else if socks5 cnf = CONNTYPE_SOCKS5 then
               (case socks5_greet e squeue of
                  (r, evs) \<Rightarrow>
                    if r = - 1
                    then (case socks_reschedule h e squeue of
                            (sq', evs') \<Rightarrow> Inr (True, sq', evs @ evs'))
                    else Inr (False, squeue\<lparr>state := SOCKS_5GREET_SENT\<rparr>, evs))
             else if socks5 cnf = CONNTYPE_DIRECT then
               (case socks_activate_peer e squeue of
                  (r, evs) \<Rightarrow> Inr (False, squeue\<lparr>state := SOCKS_DELETE\<rparr>, evs))
             else Inl 1)
      else Inr (False, squeue, []))"

text \<open>The \<^verbatim>\<open>switch\<close> inside \<^verbatim>\<open>if (FD_ISSET(squeue->fd, &rset))\<close>.\<close>

definition dispatch_rset ::
  "ocat_h \<Rightarrow> OcatSetup \<Rightarrow> Env \<Rightarrow> SocksQueue \<Rightarrow> SocksQueue \<times> event list" where
  "dispatch_rset h cnf e squeue =
     (case state squeue of
        SOCKS_4AREQ_SENT \<Rightarrow>
          if socks_rec_response e squeue = - 1 then socks_reschedule h e squeue
          else (case socks_activate_peer e squeue of
                  (r, evs) \<Rightarrow> (squeue\<lparr>state := SOCKS_DELETE\<rparr>, evs))
      | SOCKS_5GREET_SENT \<Rightarrow>
          if socks5_greet_response e squeue = - 1 then socks_reschedule h e squeue
          else (case socks5_send_request h cnf e squeue of
                  (r, evs) \<Rightarrow>
                    if r = - 1
                    then (case socks_reschedule h e squeue of (sq', evs') \<Rightarrow> (sq', evs @ evs'))
                    else (squeue\<lparr>state := SOCKS_5REQ_SENT\<rparr>, evs))
      | SOCKS_5REQ_SENT \<Rightarrow>
          if socks5_rec_response e squeue = - 1 then socks_reschedule h e squeue
          else (case socks_activate_peer e squeue of
                  (r, evs) \<Rightarrow> (squeue\<lparr>state := SOCKS_DELETE\<rparr>, evs))
      | SOCKS_DNS_SENT \<Rightarrow>
          if socks_dns_recv e squeue \<noteq> - 1
          then (squeue\<lparr>state := SOCKS_NEW, retry := 0, restart_time := 0\<rparr>, [Close (fd squeue)])
          else (squeue\<lparr>state := SOCKS_DELETE\<rparr>, [Close (fd squeue)])
      | SOCKS_DELETE \<Rightarrow> (squeue, [])
      | _ \<Rightarrow> socks_reset squeue)"

text \<open>The body of the dispatch loop for one element: \<open>ew\<close> answers the calls made for
  the write set, \<open>er\<close> those made for the read set. The field \<open>maxfd\<close> of the sets is
  the counter of ready descriptors still to be served.\<close>

definition phaseB_entry ::
  "ocat_h \<Rightarrow> OcatSetup \<Rightarrow> Env \<Rightarrow> Env \<Rightarrow> SocksQueue \<Rightarrow> fd_sets
     \<Rightarrow> int + (SocksQueue \<times> fd_sets \<times> event list)" where
  "phaseB_entry h cnf ew er squeue s =
     (case (if fd squeue \<in> set (wset s)
            then (case dispatch_wset h cnf ew squeue of
                    Inl x \<Rightarrow> Inl x
                  | Inr (c, sq', evs) \<Rightarrow> Inr (c, sq', s\<lparr>maxfd := maxfd s - 1\<rparr>, evs))
            else Inr (False, squeue, s, [])) of
        Inl x \<Rightarrow> Inl x
      | Inr (c, sq1, s1, evs) \<Rightarrow>
          if \<not> c \<and> fd sq1 \<in> set (rset s1)
          then (case dispatch_rset h cnf er sq1 of
                  (sq2, evs') \<Rightarrow> Inr (sq2, s1\<lparr>maxfd := maxfd s1 - 1\<rparr>, evs @ evs'))
          else Inr (sq1, s1, evs))"

fun phaseB ::
  "ocat_h \<Rightarrow> OcatSetup \<Rightarrow> (nat \<Rightarrow> Env) \<Rightarrow> (nat \<Rightarrow> Env) \<Rightarrow> nat \<Rightarrow> queue \<Rightarrow> fd_sets
     \<Rightarrow> int + (queue \<times> fd_sets \<times> event list)" where
  "phaseB h cnf ews ers i [] s = Inr ([], s, [])"
| "phaseB h cnf ews ers i (squeue # rest) s =
     (if maxfd s = 0 then Inr (squeue # rest, s, [])
      else
        (case phaseB_entry h cnf (ews i) (ers i) squeue s of
           Inl x \<Rightarrow> Inl x
         | Inr (sq', s', evs) \<Rightarrow>
             (case phaseB h cnf ews ers (Suc i) rest s' of
                Inl x \<Rightarrow> Inl x
              | Inr (rest', s'', evs') \<Rightarrow> Inr (sq' # rest', s'', evs @ evs'))))"

subsection \<open>The reactor: removing finished requests\<close>

text \<open>The last loop of an iteration. The pointer \<^verbatim>\<open>squeue\<close> is the position \<open>i\<close>.
  After \<^verbatim>\<open>socks_unqueue\<close> the loop body sets the pointer to the head of the queue and,
  unless the queue is empty, the \<^verbatim>\<open>for\<close> statement then advances it to the head's
  successor: position 1.\<close>

function reap :: "queue \<Rightarrow> nat \<Rightarrow> queue \<times> event list" where
  "reap q i =
     (if i < length q then
        (if state (q ! i) = SOCKS_DELETE then
           (let q' = fst (socks_unqueue i q); evs = snd (socks_unqueue i q)
            in if q' = [] then (q', evs)
               else (case reap q' 1 of (q'', evs') \<Rightarrow> (q'', evs @ evs')))
         else reap q (Suc i))
      else (q, []))"
  by pat_completeness auto
termination
  by (relation "measures [\<lambda>(q, i). length q, \<lambda>(q, i). length q - i]")
     (auto simp: socks_unqueue_def)

subsection \<open>The reactor: one iteration and the thread\<close>

record IterEnv =
  term_req :: bool
  time1 :: time_t
  envA :: "nat \<Rightarrow> Env"
  select_ret :: "(int list \<times> int list) option"
  pipe_ret :: pipe_result
  malloc_ok :: bool
  envW :: "nat \<Rightarrow> Env"
  envR :: "nat \<Rightarrow> Env"

datatype stop = ThreadReturn | Exit int

text \<open>The pipe block of the iteration: it runs when the pipe's read end is among the
  readable descriptors, and then counts one ready descriptor as served.\<close>

definition check_pipe ::
  "OcatSetup \<Rightarrow> IterEnv \<Rightarrow> queue \<Rightarrow> fd_sets \<Rightarrow> int + (queue \<times> fd_sets \<times> event list)" where
  "check_pipe cnf ie q s =
     (if socksfd0 cnf \<in> set (rset s)
      then (case read_pipe (pipe_ret ie) (malloc_ok ie) q of
              Inl x \<Rightarrow> Inl x
            | Inr (q', evs) \<Rightarrow> Inr (q', s\<lparr>maxfd := maxfd s - 1\<rparr>, evs))
      else Inr (q, s, []))"

text \<open>One pass through the body of \<^verbatim>\<open>for (;;)\<close> in \<^verbatim>\<open>socks_connector_sel\<close>. The
  state that survives from one pass to the next is the queue and the variable
  \<^verbatim>\<open>maxfd\<close>. When \<^verbatim>\<open>oc_select0\<close> fails the pass ends after the state scan.\<close>

definition reactor_iteration ::
  "ocat_h \<Rightarrow> OcatSetup \<Rightarrow> IterEnv \<Rightarrow> queue \<times> int \<Rightarrow> stop + ((queue \<times> int) \<times> event list)" where
  "reactor_iteration h cnf ie st =
     (if term_req ie then Inl ThreadReturn
      else
        (let s0 = MFD_SET_rset (socksfd0 cnf) \<lparr>rset = [], wset = [], maxfd = snd st\<rparr>;
             (q1, s1, evsA) = phaseA h cnf (time1 ie) (envA ie) 0 (fst st) s0;
             s2 = oc_select0 (select_ret ie) s1
         in if maxfd s2 = - 1 then Inr ((q1, - 1), evsA)
            else
              (case check_pipe cnf ie q1 s2 of
                 Inl x \<Rightarrow> Inl (Exit x)
               | Inr (q2, s3, evsP) \<Rightarrow>
                   (case phaseB h cnf (envW ie) (envR ie) 0 q2 s3 of
                      Inl x \<Rightarrow> Inl (Exit x)
                    | Inr (q3, s4, evsB) \<Rightarrow>
                        (case reap q3 0 of
                           (q4, evsD) \<Rightarrow> Inr ((q4, maxfd s4), evsA @ evsP @ evsB @ evsD))))))"

text \<open>The thread function: iterations as long as the environment has answers. The
  result is the reason why the thread stopped (\<open>None\<close>: it is still running), the state
  and the events of the completed iterations.\<close>

fun socks_connector_sel ::
  "ocat_h \<Rightarrow> OcatSetup \<Rightarrow> IterEnv list \<Rightarrow> queue \<times> int
     \<Rightarrow> stop option \<times> (queue \<times> int) \<times> event list" where
  "socks_connector_sel h cnf [] st = (None, st, [])"
| "socks_connector_sel h cnf (ie # ies) st =
     (case reactor_iteration h cnf ie st of
        Inl x \<Rightarrow> (Some x, st, [])
      | Inr (st', evs) \<Rightarrow>
          (case socks_connector_sel h cnf ies st' of
             (r, st'', evs') \<Rightarrow> (r, st'', evs @ evs')))"

declare reap.simps [simp del]

subsection \<open>The writers of the request pipe\<close>

text \<open>\<^verbatim>\<open>memset(&sq, 0, sizeof(sq))\<close>: every field zero.

  Modelled from the spec: the numbers of the states are in \<^verbatim>\<open>ocat.h\<close>, which is not
  part of the sources at hand. A request made by \<^verbatim>\<open>socks_queue\<close>, which sets the
  address and the permanence flag only, enters the queue in state \<^verbatim>\<open>NEW\<close>: the
  state whose number is zero is \<^verbatim>\<open>SOCKS_NEW\<close>.\<close>

definition zero_SocksQueue :: SocksQueue where
  "zero_SocksQueue =
     \<lparr>addr = 0, perm = 0, state = SOCKS_NEW, fd = 0, retry = 0, connect_time = 0,
      restart_time = 0, ns_addr = \<lparr>sin6_family = 0, sin6_port = 0, sin6_addr = 0\<rparr>,
      ns_src = 0, dns_id = 0\<rparr>"

text \<open>The three functions that write to the pipe, each given by the record it hands to
  \<^verbatim>\<open>socks_pipe_request\<close> (\<open>None\<close>: it writes nothing).\<close>

definition sig_socks_connector :: pipe_result where
  "sig_socks_connector = PipeRecord 0 zero_SocksQueue"

definition socks_queue :: "OcatSetup \<Rightarrow> queue \<Rightarrow> in6_addr \<Rightarrow> int \<Rightarrow> pipe_result option" where
  "socks_queue cnf q a p =
     (if sin6_family (socks_dst cnf) = 0 then None
      else if socks_get_req q a \<noteq> None then None
      else Some (PipeRecord 0 (zero_SocksQueue\<lparr>addr := a, perm := p\<rparr>)))"

definition print_socks_queue :: "int \<Rightarrow> pipe_result" where
  "print_socks_queue f = PipeRecord (intptr_of_int f) zero_SocksQueue"

text \<open>A record as these writers make it: all fields but \<open>addr\<close> and \<open>perm\<close> are
  zero.\<close>

definition written_here :: "pipe_result \<Rightarrow> bool" where
  "written_here p =
     (case p of
        PipeRecord nxt sq \<Rightarrow> sq = zero_SocksQueue\<lparr>addr := addr sq, perm := perm sq\<rparr>
      | _ \<Rightarrow> True)"

subsection \<open>The synchronous probe\<close>





subsection \<open>Invariants of the synchronous probe\<close>






subsection \<open>Counting connection attempts in a trace\<close>

text \<open>\<open>attempts a evs\<close> reads the trace for the address \<open>a\<close>: it is \<open>Some (p, c)\<close> when
  the latest request for \<open>a\<close> entered the queue with \<^verbatim>\<open>perm\<close> \<open>p\<close> and \<open>c\<close> calls of
  \<^verbatim>\<open>connect\<close> have been made for it since.\<close>

definition count_event :: "in6_addr \<Rightarrow> event \<Rightarrow> (int \<times> nat) option \<Rightarrow> (int \<times> nat) option" where
  "count_event a ev l =
     (case ev of
        Malloc sq \<Rightarrow> if addr sq = a then Some (perm sq, 0) else l
      | Connect b f \<Rightarrow> if b = a then map_option (\<lambda>(p, c). (p, Suc c)) l else l
      | _ \<Rightarrow> l)"

definition attempts :: "in6_addr \<Rightarrow> event list \<Rightarrow> (int \<times> nat) option" where
  "attempts a evs = fold (count_event a) evs None"

subsection \<open>Invariants of the reactor\<close>

text \<open>What the retry counter of a temporary request knows about the \<open>c\<close> calls of
  \<^verbatim>\<open>connect\<close> made for it: the counter is not negative, at most
  \<^verbatim>\<open>SOCKS_MAX_RETRY\<close> calls were made, and once a call has been made the counter is at
  least their number and the request is no longer waiting for a DNS answer. Permanent
  requests are not constrained.\<close>

definition entry_ok :: "ocat_h \<Rightarrow> SocksQueue \<Rightarrow> nat \<Rightarrow> bool" where
  "entry_ok h sq c \<longleftrightarrow>
     (perm sq = 0 \<longrightarrow>
        0 \<le> retry sq \<and> int c \<le> SOCKS_MAX_RETRY h
        \<and> (0 < c \<longrightarrow> int c \<le> retry sq \<and> state sq \<noteq> SOCKS_DNS_SENT))"

text \<open>Events that \<open>attempts\<close> does not look at.\<close>

definition silent_event :: "event \<Rightarrow> bool" where
  "silent_event ev = (case ev of Malloc sq \<Rightarrow> False | Connect a f \<Rightarrow> False | _ \<Rightarrow> True)"

text \<open>\<open>counts a evs k\<close>: the events add \<open>k\<close> attempts to the count of \<open>a\<close> and create
  no request for \<open>a\<close>. \<open>foreign A evs\<close>: the events leave the counts of all addresses
  outside \<open>A\<close> alone.\<close>

definition counts :: "in6_addr \<Rightarrow> event list \<Rightarrow> nat \<Rightarrow> bool" where
  "counts a evs k \<longleftrightarrow>
     (\<forall>l. fold (count_event a) evs l = map_option (\<lambda>(p, c). (p, c + k)) l)"

definition foreign :: "in6_addr set \<Rightarrow> event list \<Rightarrow> bool" where
  "foreign A evs \<longleftrightarrow> (\<forall>a l. a \<notin> A \<longrightarrow> fold (count_event a) evs l = l)"

text \<open>A step from \<open>sq\<close> to \<open>sq'\<close> with the events \<open>evs\<close> keeps the address and the
  permanence flag, and the invariant follows the attempts the events add.\<close>

definition tracks :: "ocat_h \<Rightarrow> event list \<Rightarrow> SocksQueue \<Rightarrow> SocksQueue \<Rightarrow> bool" where
  "tracks h evs sq sq' \<longleftrightarrow>
     addr sq' = addr sq \<and> perm sq' = perm sq
     \<and> (\<exists>k. counts (addr sq) evs k \<and> (\<forall>c. entry_ok h sq c \<longrightarrow> entry_ok h sq' (c + k)))"

text \<open>The invariant of the queue \<open>q\<close> after the trace \<open>tr\<close>: addresses are unique,
  every queued request satisfies \<open>entry_ok\<close> with the count the trace gives for its
  address, and the temporary requests that have left the queue stay within the bound.\<close>

definition queue_ok :: "ocat_h \<Rightarrow> queue \<Rightarrow> event list \<Rightarrow> bool" where
  "queue_ok h q tr \<longleftrightarrow>
     distinct (map addr q)
     \<and> (\<forall>sq \<in> set q. \<exists>c. attempts (addr sq) tr = Some (perm sq, c) \<and> entry_ok h sq c)
     \<and> (\<forall>a c. a \<notin> addr ` set q \<longrightarrow> attempts a tr = Some (0, c)
            \<longrightarrow> int c \<le> SOCKS_MAX_RETRY h)"

subsection \<open>Concrete inputs\<close>

text \<open>An environment in which every call fails, the constants of a build with three
  retries, and a setup for a SOCKS5 proxy whose request pipe is descriptor 3; the
  examples below vary them.\<close>

definition quiet_env :: Env where
  "quiet_env =
     \<lparr>time_ret = 100, hosts_get_name = (\<lambda>a. HostsMiss), hosts_get_ns = None,
      socket_dgram_ret = - 1, rand_ret = 0, sendto_ret = - 1, getaddrinfo_ret = (\<lambda>n. None),
      socket_stream_ret = - 1, connect_ret = ConnError, getsockopt_ret = None,
      write_ret = - 1, read_ret = ReadError, recvfrom_ret = None,
      oc_proc_response_ret = - 1\<rparr>"

definition example_h :: ocat_h where
  "example_h =
     \<lparr>SOCKS_MAX_RETRY = 3, SOCKS_DNS_RETRY = 3, SOCKS_DNS_RETRY_TIMEOUT = 2,
      TOR_SOCKS_CONN_TIMEOUT = 12, ipv6tonion = (\<lambda>a. ''abcdefghijklmnop'')\<rparr>"

definition example_cnf :: OcatSetup where
  "example_cnf =
     \<lparr>hosts_lookup = False, dns_lookup = False, domain = ''.onion'', usrname = ''tor'',
      socks5 = CONNTYPE_SOCKS5, ocat_dest_port = 8060, ocat_ns_port = 53, rand_addr = False,
      socks_dst = \<lparr>sin6_family = 2, sin6_port = 9050, sin6_addr = 1\<rparr>, socksfd0 = 3\<rparr>"

text \<open>Iterations of the reactor: one in which nothing is ready; one in which the pipe
  delivers a request for the address \<open>a\<close>; one, a hundred seconds later, in which
  sockets can be made but \<^verbatim>\<open>connect\<close> fails; one in which the descriptors 5 and 6 are
  readable and deliver a SOCKS5 success reply.\<close>

definition quiet_iter :: IterEnv where
  "quiet_iter =
     \<lparr>term_req = False, time1 = 100, envA = (\<lambda>i. quiet_env), select_ret = Some ([], []),
      pipe_ret = PipeShort, malloc_ok = True, envW = (\<lambda>i. quiet_env),
      envR = (\<lambda>i. quiet_env)\<rparr>"

definition enqueue_iter :: "in6_addr \<Rightarrow> IterEnv" where
  "enqueue_iter a =
     quiet_iter\<lparr>select_ret := Some ([3], []),
                pipe_ret := PipeRecord 0 (zero_SocksQueue\<lparr>addr := a\<rparr>)\<rparr>"

definition failing_iter :: IterEnv where
  "failing_iter =
     quiet_iter\<lparr>time1 := 200, envA := (\<lambda>i. quiet_env\<lparr>socket_stream_ret := 5\<rparr>)\<rparr>"

definition both_ready_iter :: IterEnv where
  "both_ready_iter =
     quiet_iter\<lparr>select_ret := Some ([5, 6], []),
                envR := (\<lambda>i. quiet_env\<lparr>read_ret := ReadData [5, 0, 0, 1, 0, 0, 0, 0, 0, 0]\<rparr>)\<rparr>"

section \<open>Properties\<close>

subsection \<open>Basic facts\<close>

lemma socks_reset_eq:
  "socks_reset sq =
     (sq\<lparr>fd := (if fd sq > 0 then 0 else fd sq), restart_time := 0, state := SOCKS_NEW\<rparr>,
      if fd sq > 0 then [Close (fd sq)] else [])"
  by (simp add: socks_reset_def)

lemma socks_reschedule_eq:
  "socks_reschedule h e sq =
     (sq\<lparr>fd := (if fd sq > 0 then 0 else fd sq), state := SOCKS_NEW,
         restart_time := time_ret e + TOR_SOCKS_CONN_TIMEOUT h\<rparr>,
      if fd sq > 0 then [Close (fd sq)] else [])"
  by (simp add: socks_reschedule_def socks_reset_def)

lemma silent_event_simps [simp]:
  "silent_event (Close f)" "silent_event (SendDns b f)" "silent_event (Write f bs)"
  "silent_event (InsertPeer f b t)" "silent_event (Dprintf f n sq)" "silent_event (Free b)"
  "\<not> silent_event (Malloc sq)" "\<not> silent_event (Connect b f)"
  by (simp_all add: silent_event_def)

lemma socks_dns_req_fields:
  assumes "socks_dns_req cnf e sq = (r, sq', evs)"
  shows "addr sq' = addr sq" "perm sq' = perm sq" "retry sq' = retry sq" "state sq' = state sq"
    "fd sq' = fd sq" "\<forall>ev \<in> set evs. silent_event ev" "r = - 1 \<longrightarrow> evs = []"
  using assms
  by (auto simp: socks_dns_req_def Let_def split: option.splits prod.splits if_splits)

lemma get_hostname_ret:
  "fst (get_hostname h cnf e sq og n) = - 1
     \<longleftrightarrow> \<not> hosts_lookup cnf \<or> hosts_get_name e (addr sq) = HostsMiss"
  by (auto simp: get_hostname_def Let_def split: hosts_result.splits)

lemma get_hostname_buf:
  "snd (get_hostname h cnf e sq True n)
     = Some (if hosts_lookup cnf
             then (case hosts_get_name e (addr sq) of
                     HostsMiss \<Rightarrow> strlcat (ipv6tonion h (addr sq)) (domain cnf) n
                   | HostsHit k name \<Rightarrow> name)
             else strlcat (ipv6tonion h (addr sq)) (domain cnf) n)"
  by (auto simp: get_hostname_def Let_def split: hosts_result.splits)

subsection \<open>Replies of the proxy\<close>

text \<open>
  Claim C6. \<^verbatim>\<open>socks_rec_response\<close> returns 0 exactly when the read delivers the full
  eight bytes of a SOCKS4a reply whose version byte is 0 and whose status byte is 90; a
  failed read, a read of fewer than eight bytes, a nonzero version byte or any other
  status byte gives -1.
\<close>

theorem socks_rec_response_iff:
  "socks_rec_response e sq =
     (if \<exists>bs. read_ret e = ReadData bs \<and> 8 \<le> length bs \<and> bs ! 0 = 0 \<and> bs ! 1 = 90
      then 0 else - 1)"
  by (cases "read_ret e")
     (auto simp: socks_rec_response_def sys_read_def sizeof_SocksHdr_def Let_def)

theorem socks_rec_response_iff_witness:
  "socks_rec_response (quiet_env\<lparr>read_ret := ReadData [0, 90, 0, 0, 0, 0, 0, 0]\<rparr>)
     zero_SocksQueue = 0
   \<and> socks_rec_response (quiet_env\<lparr>read_ret := ReadData [0, 91, 0, 0, 0, 0, 0, 0]\<rparr>)
       zero_SocksQueue = - 1
   \<and> socks_rec_response (quiet_env\<lparr>read_ret := ReadData [0, 90, 0, 0]\<rparr>)
       zero_SocksQueue = - 1"
  using
    socks_rec_response_iff
      [of "quiet_env\<lparr>read_ret := ReadData [0, 90, 0, 0, 0, 0, 0, 0]\<rparr>" zero_SocksQueue]
    socks_rec_response_iff
      [of "quiet_env\<lparr>read_ret := ReadData [0, 91, 0, 0, 0, 0, 0, 0]\<rparr>" zero_SocksQueue]
    socks_rec_response_iff
      [of "quiet_env\<lparr>read_ret := ReadData [0, 90, 0, 0]\<rparr>" zero_SocksQueue]
  by (simp add: quiet_env_def)

text \<open>
  Claim C5, as amended. \<^verbatim>\<open>socks5_rec_response\<close> returns 0 exactly when the read
  delivers at least \<^verbatim>\<open>sizeof(Socks5Hdr_t)\<close> = 5 bytes (version, reply code, reserved
  byte, address type and the first byte of the bound address) with version 5, reserved
  byte 0 and reply code 0, and -1 otherwise; on -1 the reactor reschedules a request that
  is in state \<^verbatim>\<open>SOCKS_5REQ_SENT\<close>.
\<close>

theorem socks5_rec_response_iff:
  "socks5_rec_response e sq =
     (if \<exists>bs. read_ret e = ReadData bs \<and> 5 \<le> length bs
               \<and> bs ! 0 = 5 \<and> bs ! 2 = 0 \<and> bs ! 1 = 0
      then 0 else - 1)
   \<and> (state sq = SOCKS_5REQ_SENT \<and> socks5_rec_response e sq = - 1
        \<longrightarrow> dispatch_rset h cnf e sq = socks_reschedule h e sq)"
  by (cases "read_ret e")
     (auto simp: socks5_rec_response_def sys_read_def sizeof_Socks5Hdr_def NI_MAXHOST_def
        Let_def dispatch_rset_def)

theorem socks5_rec_response_iff_witness:
  "socks5_rec_response (quiet_env\<lparr>read_ret := ReadData [5, 0, 0, 1, 0, 0, 0, 0, 0, 0]\<rparr>)
     zero_SocksQueue = 0
   \<and> socks5_rec_response (quiet_env\<lparr>read_ret := ReadData [5, 4, 0, 1, 0, 0, 0, 0, 0, 0]\<rparr>)
       (zero_SocksQueue\<lparr>state := SOCKS_5REQ_SENT, fd := 7\<rparr>) = - 1
   \<and> dispatch_rset example_h example_cnf
       (quiet_env\<lparr>read_ret := ReadData [5, 4, 0, 1, 0, 0, 0, 0, 0, 0]\<rparr>)
       (zero_SocksQueue\<lparr>state := SOCKS_5REQ_SENT, fd := 7\<rparr>)
     = (zero_SocksQueue\<lparr>state := SOCKS_NEW, fd := 0, restart_time := 112\<rparr>, [Close 7])"
  using
    socks5_rec_response_iff
      [of "quiet_env\<lparr>read_ret := ReadData [5, 0, 0, 1, 0, 0, 0, 0, 0, 0]\<rparr>" zero_SocksQueue]
    socks5_rec_response_iff
      [of "quiet_env\<lparr>read_ret := ReadData [5, 4, 0, 1, 0, 0, 0, 0, 0, 0]\<rparr>"
          "zero_SocksQueue\<lparr>state := SOCKS_5REQ_SENT, fd := 7\<rparr>" example_h example_cnf]
  by (simp add: quiet_env_def example_h_def zero_SocksQueue_def socks_reschedule_def
        socks_reset_def)

text \<open>The claim as it was stated asks for four bytes only. A reply of four bytes with
  version 5, reply code 0 and reserved byte 0 is refused.\<close>

theorem socks5_rec_response_counterexample:
  "4 \<le> length [5, 0, 0, 1 :: byte]
   \<and> [5, 0, 0, 1 :: byte] ! 0 = 5 \<and> [5, 0, 0, 1 :: byte] ! 1 = 0 \<and> [5, 0, 0, 1 :: byte] ! 2 = 0
   \<and> socks5_rec_response (quiet_env\<lparr>read_ret := ReadData [5, 0, 0, 1]\<rparr>) zero_SocksQueue = - 1"
  by (simp add: socks5_rec_response_def sys_read_def sizeof_Socks5Hdr_def NI_MAXHOST_def
        quiet_env_def)

subsection \<open>Reschedule\<close>

text \<open>
  Claim C7, as amended. \<^verbatim>\<open>socks_reschedule\<close> closes the descriptor when it is
  positive and then sets it to 0, leaves a descriptor that is 0 or negative as it is,
  sets the state to \<^verbatim>\<open>SOCKS_NEW\<close> and the restart time to the current time plus
  \<^verbatim>\<open>TOR_SOCKS_CONN_TIMEOUT\<close>, and changes no other field: the retry counter, the
  address, the permanence flag, the connect time and the DNS fields stay. So the
  descriptor is 0 afterwards when it was not negative before.
\<close>

theorem socks_reschedule_effect:
  "socks_reschedule h e sq =
     (sq\<lparr>fd := (if fd sq > 0 then 0 else fd sq), state := SOCKS_NEW,
         restart_time := time_ret e + TOR_SOCKS_CONN_TIMEOUT h\<rparr>,
      if fd sq > 0 then [Close (fd sq)] else [])
   \<and> (0 \<le> fd sq \<longrightarrow> fd (fst (socks_reschedule h e sq)) = 0)
   \<and> (fd sq < 0 \<longrightarrow> fd (fst (socks_reschedule h e sq)) = fd sq)"
  by (simp add: socks_reschedule_def socks_reset_def)

theorem socks_reschedule_effect_witness:
  "socks_reschedule example_h quiet_env
     (zero_SocksQueue\<lparr>addr := 9, state := SOCKS_CONNECTING, fd := 7, retry := 2\<rparr>)
   = (zero_SocksQueue\<lparr>addr := 9, state := SOCKS_NEW, fd := 0, retry := 2, restart_time := 112\<rparr>,
      [Close 7])
   \<and> socks_reschedule example_h quiet_env
       (zero_SocksQueue\<lparr>addr := 9, state := SOCKS_CONNECTING, fd := - 3, retry := 2\<rparr>)
     = (zero_SocksQueue\<lparr>addr := 9, state := SOCKS_NEW, fd := - 3, retry := 2,
                         restart_time := 112\<rparr>, [])"
  using
    socks_reschedule_effect
      [of example_h quiet_env
          "zero_SocksQueue\<lparr>addr := 9, state := SOCKS_CONNECTING, fd := 7, retry := 2\<rparr>"]
    socks_reschedule_effect
      [of example_h quiet_env
          "zero_SocksQueue\<lparr>addr := 9, state := SOCKS_CONNECTING, fd := - 3, retry := 2\<rparr>"]
  by (simp add: quiet_env_def example_h_def zero_SocksQueue_def)

text \<open>The claim as it was stated promises descriptor 0 for every request. A request
  whose descriptor is -1, as \<^verbatim>\<open>socket()\<close> leaves it on failure, keeps it.\<close>

theorem socks_reschedule_counterexample:
  "fd (fst (socks_reschedule example_h quiet_env (zero_SocksQueue\<lparr>fd := - 1\<rparr>))) = - 1"
  by (simp add: socks_reschedule_def socks_reset_def)

subsection \<open>Addresses in the queue\<close>

lemma socks_get_req_None_iff: "socks_get_req q a = None \<longleftrightarrow> a \<notin> addr ` set q"
  by (induction q) auto

lemma new_connect_addr:
  "new_connect h cnf t e sq s = (sq', s', evs) \<Longrightarrow> addr sq' = addr sq"
  by (auto simp: new_connect_def Let_def socks_reschedule_eq
           split: if_splits prod.splits option.splits)

lemma phaseA_new_addr:
  "phaseA_new h cnf t e sq s = (sq', s', evs) \<Longrightarrow> addr sq' = addr sq"
  by (auto simp: phaseA_new_def Let_def split: if_splits prod.splits
           dest!: new_connect_addr socks_dns_req_fields(1))

lemma phaseA_dns_sent_addr:
  "phaseA_dns_sent h cnf t e sq s = (sq', s', evs) \<Longrightarrow> addr sq' = addr sq"
  by (auto simp: phaseA_dns_sent_def Let_def split: if_splits prod.splits
           dest!: socks_dns_req_fields(1))

lemma phaseA_entry_addr:
  "phaseA_entry h cnf t e sq s = (sq', s', evs) \<Longrightarrow> addr sq' = addr sq"
  by (auto simp: phaseA_entry_def socks_reset_eq split: socks_state.splits
           dest: phaseA_new_addr phaseA_dns_sent_addr)

lemma phaseA_addrs:
  "phaseA h cnf t es i q s = (q', s', evs) \<Longrightarrow> map addr q' = map addr q"
  by (induction q arbitrary: i s q' s' evs)
     (auto split: prod.splits dest: phaseA_entry_addr)

lemma dispatch_wset_addr:
  "dispatch_wset h cnf e sq = Inr (c, sq', evs) \<Longrightarrow> addr sq' = addr sq"
  by (auto simp: dispatch_wset_def socks_reschedule_eq socks_activate_peer_def
           split: if_splits option.splits prod.splits)

lemma dispatch_rset_addr:
  "dispatch_rset h cnf e sq = (sq', evs) \<Longrightarrow> addr sq' = addr sq"
  by (auto simp: dispatch_rset_def socks_reschedule_eq socks_reset_eq socks_activate_peer_def
           split: if_splits socks_state.splits prod.splits)

lemma phaseB_entry_addr:
  "phaseB_entry h cnf ew er sq s = Inr (sq', s', evs) \<Longrightarrow> addr sq' = addr sq"
  by (auto simp: phaseB_entry_def split: if_splits sum.splits prod.splits
           dest!: dispatch_wset_addr dispatch_rset_addr)

lemma phaseB_addrs:
  "phaseB h cnf ews ers i q s = Inr (q', s', evs) \<Longrightarrow> map addr q' = map addr q"
  by (induction q arbitrary: i s q' s' evs)
     (auto split: if_splits sum.splits prod.splits dest: phaseB_entry_addr)

text \<open>The removal loop, one case at a time.\<close>

lemma reap_done: "\<not> i < length q \<Longrightarrow> reap q i = (q, [])"
  by (simp add: reap.simps [of q i])

lemma reap_next:
  "i < length q \<Longrightarrow> state (q ! i) \<noteq> SOCKS_DELETE \<Longrightarrow> reap q i = reap q (Suc i)"
  by (simp add: reap.simps [of q i])

lemma reap_delete:
  "i < length q \<Longrightarrow> state (q ! i) = SOCKS_DELETE \<Longrightarrow>
   reap q i =
     (if fst (socks_unqueue i q) = [] then ([], snd (socks_unqueue i q))
      else (fst (reap (fst (socks_unqueue i q)) 1),
            snd (socks_unqueue i q) @ snd (reap (fst (socks_unqueue i q)) 1)))"
  by (simp add: reap.simps [of q i] Let_def split: prod.splits)

lemma subseq_unqueue: "subseq (fst (socks_unqueue i q)) q"
proof (cases "i < length q")
  case True
  then have "q = take i q @ q ! i # drop (Suc i) q"
    by (simp add: id_take_nth_drop)
  then have "subseq (take i q @ drop (Suc i) q) q"
    by (metis subseq_append' list_emb_Cons subseq_order.order_refl)
  with True show ?thesis by (simp add: socks_unqueue_def)
next
  case False
  then show ?thesis by (simp add: socks_unqueue_def)
qed

lemma subseq_reap: "subseq (fst (reap q i)) q"
proof (induction q i rule: reap.induct)
  case (1 q i)
  show ?case
  proof (cases "i < length q")
    case False
    then show ?thesis by (simp add: reap_done)
  next
    case inside: True
    show ?thesis
    proof (cases "state (q ! i) = SOCKS_DELETE")
      case True
      let ?q = "fst (socks_unqueue i q)"
      from inside True "1.IH"(1) have "?q \<noteq> [] \<Longrightarrow> subseq (fst (reap ?q 1)) ?q"
        by simp
      then have "?q \<noteq> [] \<Longrightarrow> subseq (fst (reap ?q 1)) q"
        using subseq_unqueue [of i q] by (blast intro: subseq_order.order_trans)
      with inside True show ?thesis
        by (simp add: reap_delete)
    next
      case False
      with inside "1.IH"(2) show ?thesis by (simp add: reap_next)
    qed
  qed
qed

lemma distinct_addr_subseq:
  "subseq q' q \<Longrightarrow> distinct (map addr q) \<Longrightarrow> distinct (map addr q')"
  using subseq_map [of q' q addr] subseqs_distinctD [of "map addr q'" "map addr q"] by simp

lemma socks_enqueue_distinct:
  "socks_enqueue ok sq q = Inr (q', evs) \<Longrightarrow> distinct (map addr q) \<Longrightarrow> distinct (map addr q')"
  by (auto simp: socks_enqueue_def socks_get_req_None_iff split: if_splits)

lemma read_pipe_distinct:
  "read_pipe p ok q = Inr (q', evs) \<Longrightarrow> distinct (map addr q) \<Longrightarrow> distinct (map addr q')"
  by (auto simp: read_pipe_def split: pipe_result.splits if_splits dest: socks_enqueue_distinct)

lemma reactor_iteration_distinct:
  assumes "reactor_iteration h cnf ie (q, m) = Inr ((q', m'), evs)" "distinct (map addr q)"
  shows "distinct (map addr q')"
proof -
  obtain q1 s1 evsA where A: "phaseA h cnf (time1 ie) (envA ie) 0 q
      (MFD_SET_rset (socksfd0 cnf) \<lparr>rset = [], wset = [], maxfd = m\<rparr>) = (q1, s1, evsA)"
    by (metis prod_cases3)
  from phaseA_addrs [OF A] assms(2) have d1: "distinct (map addr q1)" by simp
  show ?thesis
  proof (cases "maxfd (oc_select0 (select_ret ie) s1) = - 1")
    case True
    with assms(1) A d1 show ?thesis
      by (auto simp: reactor_iteration_def split: if_splits)
  next
    case False
    with assms(1) A obtain q2 s3 evsP q3 s4 evsB where
      P: "check_pipe cnf ie q1 (oc_select0 (select_ret ie) s1) = Inr (q2, s3, evsP)"
      and B: "phaseB h cnf (envW ie) (envR ie) 0 q2 s3 = Inr (q3, s4, evsB)"
      and D: "q' = fst (reap q3 0)"
      by (auto simp: reactor_iteration_def split: if_splits sum.splits prod.splits)
    from P d1 have "distinct (map addr q2)"
      by (auto simp: check_pipe_def split: if_splits sum.splits dest: read_pipe_distinct)
    with phaseB_addrs [OF B] have "distinct (map addr q3)" by simp
    with D show ?thesis
      using distinct_addr_subseq [OF subseq_reap] by blast
  qed
qed

lemma socks_connector_sel_distinct:
  "socks_connector_sel h cnf ies st = (r, st', evs) \<Longrightarrow> distinct (map addr (fst st))
   \<Longrightarrow> distinct (map addr (fst st'))"
proof (induction ies arbitrary: st r st' evs)
  case Nil
  then show ?case by simp
next
  case (Cons ie ies)
  show ?case
  proof (cases "reactor_iteration h cnf ie st")
    case (Inl x)
    with Cons.prems show ?thesis by simp
  next
    case (Inr y)
    obtain st1 evs1 where y: "y = (st1, evs1)" by (cases y)
    with Inr Cons.prems(2) have "distinct (map addr (fst st1))"
      using reactor_iteration_distinct [of h cnf ie "fst st" "snd st" "fst st1" "snd st1" evs1]
      by simp
    with Cons.IH [of st1] Cons.prems(1) Inr y show ?thesis
      by (auto split: prod.splits)
  qed
qed

text \<open>
  Claim C9. \<^verbatim>\<open>socks_enqueue\<close> changes nothing when the queue already holds a request
  with the template's address; otherwise, memory permitting, it links a copy of the
  template at the head of the queue. It keeps the addresses of the queue distinct, and so
  does the reactor: whatever the environment does, after any number of iterations that
  start from the empty queue no two requests in the queue have the same address.
\<close>

theorem socks_enqueue_unique:
  "(socks_get_req q (addr sq) \<noteq> None \<longrightarrow> socks_enqueue ok sq q = Inr (q, []))
   \<and> (socks_get_req q (addr sq) = None \<longrightarrow> socks_enqueue True sq q = Inr (sq # q, [Malloc sq]))
   \<and> (distinct (map addr q) \<longrightarrow>
        (\<forall>q' evs. socks_enqueue ok sq q = Inr (q', evs) \<longrightarrow> distinct (map addr q')))
   \<and> (\<forall>r q' m' evs. socks_connector_sel h cnf ies ([], m) = (r, (q', m'), evs)
        \<longrightarrow> distinct (map addr q'))"
  using socks_connector_sel_distinct [of h cnf ies "([], m)"]
  by (auto simp: socks_enqueue_def socks_get_req_None_iff dest: socks_enqueue_distinct)

theorem socks_enqueue_unique_witness:
  "socks_enqueue True (zero_SocksQueue\<lparr>addr := 1, perm := 1\<rparr>) [zero_SocksQueue\<lparr>addr := 1\<rparr>]
     = Inr ([zero_SocksQueue\<lparr>addr := 1\<rparr>], [])
   \<and> socks_enqueue True (zero_SocksQueue\<lparr>addr := 2\<rparr>) [zero_SocksQueue\<lparr>addr := 1\<rparr>]
     = Inr ([zero_SocksQueue\<lparr>addr := 2\<rparr>, zero_SocksQueue\<lparr>addr := 1\<rparr>],
            [Malloc (zero_SocksQueue\<lparr>addr := 2\<rparr>)])
   \<and> distinct (map addr (fst (fst (snd (socks_connector_sel example_h example_cnf
         [enqueue_iter 1, enqueue_iter 1, enqueue_iter 2] ([], 0))))))"
  using
    socks_enqueue_unique
      [of "[zero_SocksQueue\<lparr>addr := 1\<rparr>]" "zero_SocksQueue\<lparr>addr := 1, perm := 1\<rparr>" True
          example_h example_cnf "[enqueue_iter 1, enqueue_iter 1, enqueue_iter 2]" 0]
    socks_enqueue_unique
      [of "[zero_SocksQueue\<lparr>addr := 1\<rparr>]" "zero_SocksQueue\<lparr>addr := 2\<rparr>" True
          example_h example_cnf "[enqueue_iter 1, enqueue_iter 1, enqueue_iter 2]" 0]
  by (simp add: zero_SocksQueue_def) (metis prod.collapse)

subsection \<open>Records on the request pipe\<close>

text \<open>A descriptor that fits an \<^verbatim>\<open>int\<close> comes out of the field \<^verbatim>\<open>next\<close> as it went
  in, and only the descriptor 0 is stored as \<^verbatim>\<open>NULL\<close>.\<close>

lemma ucast_scast_32_64: "(ucast (scast (w :: 32 word) :: 64 word) :: 32 word) = w"
  by (rule bit_word_eqI) (auto simp: bit_simps)

lemma int_of_intptr_of_int:
  assumes "- (2 ^ 31) \<le> f" "f < 2 ^ 31"
  shows "int_of_intptr (intptr_of_int f) = f"
proof -
  have "int_of_intptr (intptr_of_int f) = sint (word_of_int f :: 32 word)"
    unfolding int_of_intptr_def intptr_of_int_def ucast_scast_32_64 ..
  also have "\<dots> = signed_take_bit 31 f"
    by (simp add: sint_sbintrunc')
  also have "\<dots> = f"
    using assms by (simp add: signed_take_bit_int_eq_self)
  finally show ?thesis .
qed

lemma intptr_of_int_0: "intptr_of_int 0 = 0"
  by (simp add: intptr_of_int_def)

lemma intptr_of_int_eq_0_iff:
  "- (2 ^ 31) \<le> f \<Longrightarrow> f < 2 ^ 31 \<Longrightarrow> intptr_of_int f = 0 \<longleftrightarrow> f = 0"
  using int_of_intptr_of_int [of f] by (auto simp: intptr_of_int_def int_of_intptr_def)

text \<open>
  Claim C2, as amended. For a whole record read from the pipe: when its address is
  unspecified and its \<^verbatim>\<open>next\<close> field is null the queue stays as it is and nothing
  else happens; when its \<^verbatim>\<open>next\<close> field is not null, whatever its address, the queue
  stays as it is and is dumped to the descriptor that \<^verbatim>\<open>next\<close> gives when it is
  converted to an \<^verbatim>\<open>int\<close> (its low 32 bits); when its address is specified and its
  \<^verbatim>\<open>next\<close> field is null it is enqueued, which does nothing if the address is queued
  already. Of the writers: \<^verbatim>\<open>socks_queue\<close> writes a record only when SOCKS is enabled
  and the address is not queued, and that record is handled as an enqueue when the
  address is specified and as a wakeup when it is the unspecified address; the record of
  \<^verbatim>\<open>sig_socks_connector\<close> is handled as a wakeup; the record of
  \<^verbatim>\<open>print_socks_queue\<close> is handled as a dump to the descriptor it was given when that
  descriptor is not 0, and as a wakeup when it is 0.
\<close>

theorem read_pipe_dispatch:
  "(addr sq = 0 \<and> nxt = 0 \<longrightarrow> read_pipe (PipeRecord nxt sq) ok q = Inr (q, []))
   \<and> (nxt \<noteq> 0 \<longrightarrow>
        read_pipe (PipeRecord nxt sq) ok q = Inr (q, socks_output_queue (int_of_intptr nxt) q))
   \<and> (addr sq \<noteq> 0 \<and> nxt = 0 \<longrightarrow>
        read_pipe (PipeRecord nxt sq) ok q = socks_enqueue ok sq q
        \<and> (socks_get_req q (addr sq) \<noteq> None \<longrightarrow> read_pipe (PipeRecord nxt sq) ok q = Inr (q, []))
        \<and> (socks_get_req q (addr sq) = None \<and> ok \<longrightarrow>
              read_pipe (PipeRecord nxt sq) ok q = Inr (sq # q, [Malloc sq])))
   \<and> (sin6_family (socks_dst cnf) \<noteq> 0 \<and> socks_get_req q a = None \<longrightarrow>
        (\<exists>r. socks_queue cnf q a p = Some r
              \<and> read_pipe r True q
                  = (if a = 0 then Inr (q, [])
                     else Inr (zero_SocksQueue\<lparr>addr := a, perm := p\<rparr> # q,
                               [Malloc (zero_SocksQueue\<lparr>addr := a, perm := p\<rparr>)]))))
   \<and> (sin6_family (socks_dst cnf) = 0 \<or> socks_get_req q a \<noteq> None \<longrightarrow>
        socks_queue cnf q a p = None)
   \<and> read_pipe sig_socks_connector ok q = Inr (q, [])
   \<and> (f \<noteq> 0 \<and> - (2 ^ 31) \<le> f \<and> f < 2 ^ 31 \<longrightarrow>
        read_pipe (print_socks_queue f) ok q = Inr (q, socks_output_queue f q))
   \<and> read_pipe (print_socks_queue 0) ok q = Inr (q, [])"
  by (auto simp: read_pipe_def socks_enqueue_def socks_queue_def sig_socks_connector_def
        print_socks_queue_def zero_SocksQueue_def int_of_intptr_of_int intptr_of_int_0
        intptr_of_int_eq_0_iff)

theorem read_pipe_dispatch_witness:
  "read_pipe (PipeRecord 0 zero_SocksQueue) True [] = Inr ([], [])
   \<and> read_pipe (PipeRecord 7 zero_SocksQueue) True [] = Inr ([], [Write 7 [0]])
   \<and> read_pipe (PipeRecord 4294967303 zero_SocksQueue) True [] = Inr ([], [Write 7 [0]])
   \<and> read_pipe (PipeRecord 0 (zero_SocksQueue\<lparr>addr := 1\<rparr>)) True []
       = Inr ([zero_SocksQueue\<lparr>addr := 1\<rparr>], [Malloc (zero_SocksQueue\<lparr>addr := 1\<rparr>)])
   \<and> read_pipe (PipeRecord 0 (zero_SocksQueue\<lparr>addr := 1, perm := 1\<rparr>)) True
         [zero_SocksQueue\<lparr>addr := 1\<rparr>]
       = Inr ([zero_SocksQueue\<lparr>addr := 1\<rparr>], [])
   \<and> socks_queue example_cnf [] 1 0 = Some (PipeRecord 0 (zero_SocksQueue\<lparr>addr := 1\<rparr>))
   \<and> socks_queue example_cnf [] 0 0 = Some (PipeRecord 0 zero_SocksQueue)
   \<and> socks_queue example_cnf [zero_SocksQueue\<lparr>addr := 1\<rparr>] 1 0 = None
   \<and> read_pipe sig_socks_connector True [] = Inr ([], [])
   \<and> read_pipe (print_socks_queue 7) True [] = Inr ([], [Write 7 [0]])
   \<and> read_pipe (print_socks_queue 0) True [] = Inr ([], [])"
  using
    read_pipe_dispatch [where sq = zero_SocksQueue and nxt = 0 and ok = True and q = "[]"
      and a = 1 and cnf = example_cnf and p = 0 and f = 7]
    read_pipe_dispatch [where sq = zero_SocksQueue and nxt = 7 and ok = True and q = "[]"
      and a = 0 and cnf = example_cnf and p = 0 and f = 7]
    read_pipe_dispatch [where sq = zero_SocksQueue and nxt = 4294967303 and ok = True
      and q = "[]" and a = 1 and cnf = example_cnf and p = 0 and f = 7]
    read_pipe_dispatch [where sq = "zero_SocksQueue\<lparr>addr := 1\<rparr>" and nxt = 0 and ok = True
      and q = "[]" and a = 1 and cnf = example_cnf and p = 0 and f = 7]
    read_pipe_dispatch [where sq = "zero_SocksQueue\<lparr>addr := 1, perm := 1\<rparr>" and nxt = 0
      and ok = True and q = "[zero_SocksQueue\<lparr>addr := 1\<rparr>]" and a = 1
      and cnf = example_cnf and p = 0 and f = 7]
  by (simp add: zero_SocksQueue_def socks_output_queue_def read_pipe_def socks_enqueue_def
        socks_queue_def example_cnf_def sig_socks_connector_def print_socks_queue_def
        int_of_intptr_def intptr_of_int_def)

text \<open>The claim as it was stated has every record with a specified address enqueued.
  A record with the address 1 and the value 7 in \<^verbatim>\<open>next\<close> is not: the (empty) queue
  is dumped to descriptor 7 and stays empty.\<close>

theorem read_pipe_counterexample:
  "addr (zero_SocksQueue\<lparr>addr := 1\<rparr>) \<noteq> 0
   \<and> read_pipe (PipeRecord 7 (zero_SocksQueue\<lparr>addr := 1\<rparr>)) True []
       = Inr ([], [Write 7 [0]])"
  by (simp add: read_pipe_def socks_output_queue_def zero_SocksQueue_def int_of_intptr_def)

subsection \<open>Requests marked for deletion\<close>

text \<open>What the removal loop does achieve: behind the head of the queue nothing is
  left in state \<^verbatim>\<open>SOCKS_DELETE\<close>.\<close>

lemma reap_tail:
  assumes "\<forall>j. 0 < j \<and> j < i \<and> j < length q \<longrightarrow> state (q ! j) \<noteq> SOCKS_DELETE"
  shows "\<forall>j. 0 < j \<and> j < length (fst (reap q i)) \<longrightarrow> state (fst (reap q i) ! j) \<noteq> SOCKS_DELETE"
  using assms
proof (induction q i rule: reap.induct)
  case (1 q i)
  show ?case
  proof (cases "i < length q")
    case False
    with "1.prems" show ?thesis by (simp add: reap_done)
  next
    case inside: True
    show ?thesis
    proof (cases "state (q ! i) = SOCKS_DELETE")
      case True
      let ?q = "fst (socks_unqueue i q)"
      from inside True "1.IH"(1) [of ?q "snd (socks_unqueue i q)"]
      have "?q \<noteq> [] \<Longrightarrow> \<forall>j. 0 < j \<and> j < length (fst (reap ?q 1))
              \<longrightarrow> state (fst (reap ?q 1) ! j) \<noteq> SOCKS_DELETE"
        by simp
      with inside True show ?thesis
        by (simp add: reap_delete)
    next
      case False
      have "\<forall>j. 0 < j \<and> j < Suc i \<and> j < length q \<longrightarrow> state (q ! j) \<noteq> SOCKS_DELETE"
        using "1.prems" False by (auto simp: less_Suc_eq)
      with inside False "1.IH"(2) show ?thesis
        by (simp add: reap_next)
    qed
  qed
qed

text \<open>
  Claim C1: after a full iteration of the reactor no request in state
  \<^verbatim>\<open>SOCKS_DELETE\<close> is left in the queue. The code does not achieve this. After a
  removal the loop restarts at the head of the queue, and the \<^verbatim>\<open>for\<close> statement then
  steps past the head without looking at it. Two runs of a full iteration show it. In the
  first, two requests wait for the SOCKS5 reply, both replies arrive and report success,
  both peers are activated and both requests are marked; in the second, two temporary
  requests have used up their retries and are marked by the state scan. Each time the
  first request is removed and the second, now the head, stays in the queue in state
  \<^verbatim>\<open>SOCKS_DELETE\<close>.
\<close>

theorem reap_skips_new_head:
  "reactor_iteration example_h example_cnf both_ready_iter
     ([zero_SocksQueue\<lparr>addr := 1, state := SOCKS_5REQ_SENT, fd := 5, retry := 1,
                        connect_time := 90\<rparr>,
       zero_SocksQueue\<lparr>addr := 2, state := SOCKS_5REQ_SENT, fd := 6, retry := 1,
                        connect_time := 95\<rparr>], 0)
   = Inr (([zero_SocksQueue\<lparr>addr := 2, state := SOCKS_DELETE, fd := 6, retry := 1,
                             connect_time := 95\<rparr>], 0),
          [InsertPeer 5 1 10, InsertPeer 6 2 5, Free 1])
   \<and> reactor_iteration example_h example_cnf quiet_iter
     ([zero_SocksQueue\<lparr>addr := 1, retry := 3\<rparr>, zero_SocksQueue\<lparr>addr := 2, retry := 3\<rparr>], 0)
   = Inr (([zero_SocksQueue\<lparr>addr := 2, retry := 4, state := SOCKS_DELETE\<rparr>], 0), [Free 1])"
  by (simp add: reactor_iteration_def both_ready_iter_def quiet_iter_def example_h_def
        example_cnf_def quiet_env_def zero_SocksQueue_def phaseA_entry_def phaseA_new_def
        MFD_SET_rset_def oc_select0_def check_pipe_def phaseB_entry_def dispatch_rset_def
        socks5_rec_response_def sys_read_def sizeof_Socks5Hdr_def NI_MAXHOST_def
        socks_activate_peer_def reap.simps socks_unqueue_def Let_def)

subsection \<open>The synchronous probe\<close>


























subsection \<open>The name of the peer in direct mode\<close>

lemma new_connect_direct_miss:
  assumes "socks5 cnf = CONNTYPE_DIRECT"
    "\<not> hosts_lookup cnf \<or> hosts_get_name e (addr sq) = HostsMiss"
  shows "new_connect h cnf t e sq s = (sq, s, [])"
proof -
  from assms(2) have "fst (get_hostname h cnf e sq True NI_MAXHOST) = - 1"
    by (simp add: get_hostname_ret)
  with assms(1) show ?thesis
    by (cases "get_hostname h cnf e sq True NI_MAXHOST") (simp add: new_connect_def)
qed

lemma phaseA_new_direct_miss:
  assumes "socks5 cnf = CONNTYPE_DIRECT"
    "\<not> hosts_lookup cnf \<or> hosts_get_name e (addr sq) = HostsMiss"
    and "phaseA_new h cnf t e sq s = (sq', s', evs)" "state sq = SOCKS_NEW"
  shows "state sq' \<noteq> SOCKS_CONNECTING \<and> wset s' = wset s
         \<and> (\<forall>ev \<in> set evs. \<forall>a f. ev \<noteq> Connect a f)"
proof -
  let ?sq3 = "sq\<lparr>retry := retry sq + 1, fd := socket_dgram_ret e, dns_id := rand_ret e\<rparr>"
  obtain r sq4 evs1 where dr: "socks_dns_req cnf e ?sq3 = (r, sq4, evs1)"
    by (metis prod_cases3)
  note f4 = socks_dns_req_fields [OF dr]
  from f4(1) assms(1,2) have "new_connect h cnf t e sq4 s = (sq4, s, [])"
    by (intro new_connect_direct_miss) auto
  moreover have "\<forall>ev \<in> set evs1. \<forall>a f. ev \<noteq> Connect a f"
    using f4(6) by auto
  ultimately show ?thesis
    using assms dr f4(4) f4(7)
    by (auto simp: phaseA_new_def Let_def new_connect_direct_miss MFD_SET_rset_def
          split: if_splits)
qed

text \<open>
  Claim C10. Called with a buffer, \<^verbatim>\<open>get_hostname\<close> always leaves a name in it: the
  name from the hosts table when the lookup is enabled and finds one, and otherwise the
  name derived by \<^verbatim>\<open>ipv6tonion\<close> with the configured domain appended. It returns -1
  exactly when the lookup is disabled or finds nothing. So in direct mode, for a request
  in state \<^verbatim>\<open>SOCKS_NEW\<close> whose lookup gives -1, the derived name is in the buffer and
  yet the state scan makes no connection attempt: no \<^verbatim>\<open>connect\<close>, no transition to
  \<^verbatim>\<open>SOCKS_CONNECTING\<close>, nothing added to the write set.
\<close>

theorem get_hostname_direct_skip:
  "snd (get_hostname h cnf e sq True n)
     = Some (if hosts_lookup cnf
             then (case hosts_get_name e (addr sq) of
                     HostsMiss \<Rightarrow> strlcat (ipv6tonion h (addr sq)) (domain cnf) n
                   | HostsHit k name \<Rightarrow> name)
             else strlcat (ipv6tonion h (addr sq)) (domain cnf) n)
   \<and> (fst (get_hostname h cnf e sq og n) = - 1
        \<longleftrightarrow> \<not> hosts_lookup cnf \<or> hosts_get_name e (addr sq) = HostsMiss)
   \<and> (socks5 cnf = CONNTYPE_DIRECT \<and> state sq = SOCKS_NEW
        \<and> fst (get_hostname h cnf e sq True NI_MAXHOST) = - 1
      \<longrightarrow> snd (get_hostname h cnf e sq True NI_MAXHOST)
            = Some (strlcat (ipv6tonion h (addr sq)) (domain cnf) NI_MAXHOST)
          \<and> state (fst (phaseA_entry h cnf t e sq s)) \<noteq> SOCKS_CONNECTING
          \<and> wset (fst (snd (phaseA_entry h cnf t e sq s))) = wset s
          \<and> (\<forall>ev \<in> set (snd (snd (phaseA_entry h cnf t e sq s))). \<forall>a f. ev \<noteq> Connect a f))"
  using phaseA_new_direct_miss [of cnf e sq h t s "fst (phaseA_new h cnf t e sq s)"
      "fst (snd (phaseA_new h cnf t e sq s))" "snd (snd (phaseA_new h cnf t e sq s))"]
  by (auto simp: get_hostname_ret get_hostname_buf phaseA_entry_def split: hosts_result.splits)

theorem get_hostname_direct_skip_witness:
  "get_hostname example_h (example_cnf\<lparr>socks5 := CONNTYPE_DIRECT\<rparr>) quiet_env
     (zero_SocksQueue\<lparr>addr := 1\<rparr>) True NI_MAXHOST = (- 1, Some ''abcdefghijklmnop.onion'')
   \<and> phaseA_entry example_h (example_cnf\<lparr>socks5 := CONNTYPE_DIRECT\<rparr>) 100
       (quiet_env\<lparr>socket_stream_ret := 5, connect_ret := ConnEstablished\<rparr>)
       (zero_SocksQueue\<lparr>addr := 1\<rparr>) \<lparr>rset = [3], wset = [], maxfd = 3\<rparr>
     = (zero_SocksQueue\<lparr>addr := 1, retry := 1\<rparr>, \<lparr>rset = [3], wset = [], maxfd = 3\<rparr>, [])"
  using get_hostname_direct_skip [of example_h "example_cnf\<lparr>socks5 := CONNTYPE_DIRECT\<rparr>"
      "quiet_env\<lparr>socket_stream_ret := 5, connect_ret := ConnEstablished\<rparr>"
      "zero_SocksQueue\<lparr>addr := 1\<rparr>" NI_MAXHOST True 100 "\<lparr>rset = [3], wset = [], maxfd = 3\<rparr>"]
  by (simp add: get_hostname_def example_h_def example_cnf_def quiet_env_def zero_SocksQueue_def
        strlcat_def NI_MAXHOST_def phaseA_entry_def phaseA_new_def new_connect_def Let_def)

subsection \<open>Giving up the DNS probe\<close>

lemma phaseA_dns_sent_fallback:
  assumes "\<not> t < restart_time sq"
    and "\<not> retry sq < SOCKS_DNS_RETRY h \<or> fst (socks_dns_req cnf e sq) = - 1"
  shows "\<exists>sq'. phaseA_dns_sent h cnf t e sq s = (sq', s, [Close (fd sq)])
            \<and> state sq' = SOCKS_NEW \<and> restart_time sq' = 0 \<and> retry sq' = 1
            \<and> addr sq' = addr sq \<and> perm sq' = perm sq \<and> fd sq' = fd sq"
proof (cases "retry sq < SOCKS_DNS_RETRY h")
  case False
  with assms(1) show ?thesis
    by (simp add: phaseA_dns_sent_def)
next
  case True
  obtain r sq1 evs1 where dr: "socks_dns_req cnf e sq = (r, sq1, evs1)"
    by (metis prod_cases3)
  note f1 = socks_dns_req_fields [OF dr]
  from True assms(2) dr have "r = - 1" by simp
  with f1(7) have "evs1 = []" by simp
  with assms(1) True dr \<open>r = - 1\<close> f1 show ?thesis
    by (simp add: phaseA_dns_sent_def)
qed

lemma phaseA_new_after_fallback:
  assumes "state sq = SOCKS_NEW" "restart_time sq = 0" "retry sq = 1" "0 \<le> t"
  shows "phaseA_entry h cnf t e sq s =
           (if perm sq = 0 \<and> SOCKS_MAX_RETRY h < 2
            then (sq\<lparr>retry := 2, state := SOCKS_DELETE\<rparr>, s, [])
            else new_connect h cnf t e (sq\<lparr>retry := 2\<rparr>) s)"
  using assms by (simp add: phaseA_entry_def phaseA_new_def Let_def)

lemma new_connect_proxy:
  assumes "socks5 cnf \<noteq> CONNTYPE_DIRECT"
  shows "new_connect h cnf t e sq s =
     (if socket_stream_ret e = - 1 then (sq\<lparr>fd := - 1\<rparr>, s, [])
      else if connect_ret e = ConnError
      then (case socks_reschedule h e (sq\<lparr>fd := socket_stream_ret e, connect_time := t\<rparr>) of
              (sq3, evs') \<Rightarrow> (sq3, s, Connect (addr sq) (socket_stream_ret e) # evs'))
      else (sq\<lparr>fd := socket_stream_ret e, connect_time := t, state := SOCKS_CONNECTING\<rparr>,
            MFD_SET_wset (socket_stream_ret e) s, [Connect (addr sq) (socket_stream_ret e)]))"
  using assms
  by (auto simp: new_connect_def Let_def socks_tcp_connect_def socks_reschedule_eq
      split: connect_result.splits)

lemma new_connect_no_dns:
  assumes "new_connect h cnf t e sq s = (sq', s', evs)"
  shows "retry sq' = retry sq \<and> (state sq = SOCKS_NEW \<longrightarrow> state sq' \<noteq> SOCKS_DNS_SENT)
         \<and> rset s' = rset s \<and> (\<forall>ev \<in> set evs. \<forall>b f. ev \<noteq> SendDns b f)"
  using assms
  by (auto simp: new_connect_def Let_def socks_reschedule_eq socks_tcp_connect_def
        MFD_SET_wset_def
      split: if_splits prod.splits option.splits connect_result.splits)

lemma get_hostname_miss:
  assumes "\<not> hosts_lookup cnf \<or> hosts_get_name e (addr sq) = HostsMiss"
  shows "get_hostname h cnf e sq True n
         = (- 1, Some (strlcat (ipv6tonion h (addr sq)) (domain cnf) n))"
  using assms by (auto simp: get_hostname_def)

lemma write_frame_full:
  "int (length buf) \<le> write_ret e \<Longrightarrow> write_frame e sq buf = (0, [Write (fd sq) buf])"
  by (auto simp: write_frame_def Let_def)

lemma phaseB_entry_send4a:
  assumes "state sq = SOCKS_CONNECTING" "socks5 cnf = CONNTYPE_SOCKS4A"
    "getsockopt_ret ew = Some 0"
    "\<not> hosts_lookup cnf \<or> hosts_get_name ew (addr sq) = HostsMiss"
    "fd sq \<in> set (wset sB)" "fd sq \<notin> set (rset sB)"
    "int (length ([4, 1] @ htons (ocat_dest_port cnf) @ [0, 0, 0, 1] @ bytes_of (usrname cnf)
            @ [0] @ bytes_of (strlcat (ipv6tonion h (addr sq)) (domain cnf) NI_MAXHOST) @ [0]))
       \<le> write_ret ew"
  shows "phaseB_entry h cnf ew er sq sB
     = Inr (sq\<lparr>state := SOCKS_4AREQ_SENT\<rparr>, sB\<lparr>maxfd := maxfd sB - 1\<rparr>,
            [Write (fd sq)
               ([4, 1] @ htons (ocat_dest_port cnf) @ [0, 0, 0, 1] @ bytes_of (usrname cnf)
                @ [0] @ bytes_of (strlcat (ipv6tonion h (addr sq)) (domain cnf) NI_MAXHOST)
                @ [0])])"
proof -
  have "socks_send_request h cnf ew sq
     = (0, [Write (fd sq)
               ([4, 1] @ htons (ocat_dest_port cnf) @ [0, 0, 0, 1] @ bytes_of (usrname cnf)
                @ [0] @ bytes_of (strlcat (ipv6tonion h (addr sq)) (domain cnf) NI_MAXHOST)
                @ [0])])"
    unfolding socks_send_request_def get_hostname_miss [OF assms(4)] Let_def
    using assms(7) by (simp add: write_frame_full)
  with assms(1,2,3,5,6) show ?thesis
    by (simp add: phaseB_entry_def dispatch_wset_def)
qed

lemma phaseB_entry_greet5:
  assumes "state sq = SOCKS_CONNECTING" "socks5 cnf = CONNTYPE_SOCKS5"
    "getsockopt_ret ew = Some 0" "fd sq \<in> set (wset sB)" "fd sq \<notin> set (rset sB)"
    "3 \<le> write_ret ew"
  shows "phaseB_entry h cnf ew er sq sB
     = Inr (sq\<lparr>state := SOCKS_5GREET_SENT\<rparr>, sB\<lparr>maxfd := maxfd sB - 1\<rparr>,
            [Write (fd sq) [5, 1, 0]])"
proof -
  from assms(6) have "socks5_greet ew sq = (0, [Write (fd sq) [5, 1, 0]])"
    by (simp add: socks5_greet_def write_frame_full)
  with assms(1-5) show ?thesis
    by (simp add: phaseB_entry_def dispatch_wset_def)
qed

lemma phaseB_entry_send5:
  assumes "state sq = SOCKS_5GREET_SENT" "socks5 cnf = CONNTYPE_SOCKS5"
    "socks5_greet_response er sq \<noteq> - 1"
    "\<not> hosts_lookup cnf \<or> hosts_get_name er (addr sq) = HostsMiss"
    "fd sq \<notin> set (wset sB)" "fd sq \<in> set (rset sB)"
    "int (length ([5, 1, 0, 3,
                   of_nat (length (strlcat (ipv6tonion h (addr sq)) (domain cnf) NI_MAXHOST))]
            @ bytes_of (strlcat (ipv6tonion h (addr sq)) (domain cnf) NI_MAXHOST)
            @ htons (ocat_dest_port cnf)))
       \<le> write_ret er"
  shows "phaseB_entry h cnf ew er sq sB
     = Inr (sq\<lparr>state := SOCKS_5REQ_SENT\<rparr>, sB\<lparr>maxfd := maxfd sB - 1\<rparr>,
            [Write (fd sq)
               ([5, 1, 0, 3,
                 of_nat (length (strlcat (ipv6tonion h (addr sq)) (domain cnf) NI_MAXHOST))]
                @ bytes_of (strlcat (ipv6tonion h (addr sq)) (domain cnf) NI_MAXHOST)
                @ htons (ocat_dest_port cnf))])"
proof -
  have "socks5_send_request h cnf er sq
     = (0, [Write (fd sq)
               ([5, 1, 0, 3,
                 of_nat (length (strlcat (ipv6tonion h (addr sq)) (domain cnf) NI_MAXHOST))]
                @ bytes_of (strlcat (ipv6tonion h (addr sq)) (domain cnf) NI_MAXHOST)
                @ htons (ocat_dest_port cnf))])"
    unfolding socks5_send_request_def get_hostname_miss [OF assms(4)] Let_def
    using assms(7) by (simp add: write_frame_full)
  with assms(1,2,3,5,6) show ?thesis
    by (simp add: phaseB_entry_def dispatch_rset_def)
qed


lemma phaseA_entry_after_fallback:
  assumes "state sq = SOCKS_NEW" "restart_time sq = 0" "retry sq = 1" "0 \<le> t"
    and "phaseA_entry h cnf t e sq s = (sq', s', evs)"
  shows "retry sq' = 2 \<and> state sq' \<noteq> SOCKS_DNS_SENT \<and> rset s' = rset s
         \<and> (\<forall>ev \<in> set evs. \<forall>b f. ev \<noteq> SendDns b f)"
proof (cases "perm sq = 0 \<and> SOCKS_MAX_RETRY h < 2")
  case True
  with assms(5) phaseA_new_after_fallback [OF assms(1-4), of h cnf e s] show ?thesis
    by auto
next
  case False
  with assms(5) phaseA_new_after_fallback [OF assms(1-4), of h cnf e s]
  have "new_connect h cnf t e (sq\<lparr>retry := 2\<rparr>) s = (sq', s', evs)"
    by auto
  from new_connect_no_dns [OF this] assms(1) show ?thesis by simp
qed

text \<open>
  Claim C8, as amended. For a request in state \<^verbatim>\<open>SOCKS_DNS_SENT\<close> whose restart time
  has passed and whose DNS retries are used up, or whose resend fails, the state scan
  closes the UDP descriptor and sets the state to \<^verbatim>\<open>SOCKS_NEW\<close>, the restart time to 0
  and the retry counter to 1. On the next pass over this \<^verbatim>\<open>SOCKS_NEW\<close> request the
  counter becomes 2 and the DNS lookup branch is not entered: no DNS request is sent and
  the request does not return to \<^verbatim>\<open>SOCKS_DNS_SENT\<close>. What the pass does instead:
  a temporary request is marked for deletion when \<^verbatim>\<open>SOCKS_MAX_RETRY\<close> is below 2;
  otherwise, in direct mode and with no name in the hosts table, nothing is done and the
  request stays \<^verbatim>\<open>SOCKS_NEW\<close>; otherwise, with a proxy, a socket is made and connected
  to the proxy (the request is left alone when there is no socket and rescheduled when
  the connect fails). Once the request is \<^verbatim>\<open>SOCKS_CONNECTING\<close> and the hosts table
  has no name, the request frame that the dispatch on ready descriptors writes to the
  proxy (at once for SOCKS4A, after the greeting for SOCKS5) carries the derived name.
\<close>

theorem dns_sent_fallback:
  assumes "state sq = SOCKS_DNS_SENT" and "\<not> t < restart_time sq"
    and "\<not> retry sq < SOCKS_DNS_RETRY h \<or> fst (socks_dns_req cnf e sq) = - 1"
  shows "\<exists>sq'. phaseA_entry h cnf t e sq s = (sq', s, [Close (fd sq)])
     \<and> state sq' = SOCKS_NEW \<and> restart_time sq' = 0 \<and> retry sq' = 1
     \<and> addr sq' = addr sq \<and> perm sq' = perm sq
     \<and> (\<forall>t' e' s'. 0 \<le> t' \<longrightarrow>
          (case phaseA_entry h cnf t' e' sq' s' of
             (sq'', s'', evs) \<Rightarrow>
               retry sq'' = 2 \<and> state sq'' \<noteq> SOCKS_DNS_SENT \<and> rset s'' = rset s'
               \<and> (\<forall>ev \<in> set evs. \<forall>b f. ev \<noteq> SendDns b f))
          \<and> (perm sq = 0 \<and> SOCKS_MAX_RETRY h < 2 \<longrightarrow>
                phaseA_entry h cnf t' e' sq' s'
                  = (sq'\<lparr>retry := 2, state := SOCKS_DELETE\<rparr>, s', []))
          \<and> ((perm sq \<noteq> 0 \<or> 2 \<le> SOCKS_MAX_RETRY h) \<and> socks5 cnf = CONNTYPE_DIRECT
                \<and> (\<not> hosts_lookup cnf \<or> hosts_get_name e' (addr sq) = HostsMiss) \<longrightarrow>
                phaseA_entry h cnf t' e' sq' s' = (sq'\<lparr>retry := 2\<rparr>, s', []))
          \<and> ((perm sq \<noteq> 0 \<or> 2 \<le> SOCKS_MAX_RETRY h) \<and> socks5 cnf \<noteq> CONNTYPE_DIRECT
                \<and> socket_stream_ret e' = - 1 \<longrightarrow>
                phaseA_entry h cnf t' e' sq' s' = (sq'\<lparr>retry := 2, fd := - 1\<rparr>, s', []))
          \<and> ((perm sq \<noteq> 0 \<or> 2 \<le> SOCKS_MAX_RETRY h) \<and> socks5 cnf \<noteq> CONNTYPE_DIRECT
                \<and> socket_stream_ret e' \<noteq> - 1 \<and> connect_ret e' = ConnError \<longrightarrow>
                phaseA_entry h cnf t' e' sq' s'
                  = (case socks_reschedule h e'
                            (sq'\<lparr>retry := 2, fd := socket_stream_ret e',
                                 connect_time := t'\<rparr>) of
                       (sq3, evs') \<Rightarrow>
                         (sq3, s', Connect (addr sq) (socket_stream_ret e') # evs')))
          \<and> ((perm sq \<noteq> 0 \<or> 2 \<le> SOCKS_MAX_RETRY h) \<and> socks5 cnf \<noteq> CONNTYPE_DIRECT
                \<and> socket_stream_ret e' \<noteq> - 1 \<and> connect_ret e' \<noteq> ConnError \<longrightarrow>
                (let f = socket_stream_ret e';
                     sqc = sq'\<lparr>retry := 2, fd := f, connect_time := t',
                              state := SOCKS_CONNECTING\<rparr>;
                     name = strlcat (ipv6tonion h (addr sq)) (domain cnf) NI_MAXHOST;
                     frame4 = [4, 1] @ htons (ocat_dest_port cnf) @ [0, 0, 0, 1]
                              @ bytes_of (usrname cnf) @ [0] @ bytes_of name @ [0];
                     frame5 = [5, 1, 0, 3, of_nat (length name)] @ bytes_of name
                              @ htons (ocat_dest_port cnf)
                 in phaseA_entry h cnf t' e' sq' s'
                      = (sqc, MFD_SET_wset f s', [Connect (addr sq) f])
                    \<and> (\<forall>ew er sB.
                          socks5 cnf = CONNTYPE_SOCKS4A \<and> getsockopt_ret ew = Some 0
                          \<and> (\<not> hosts_lookup cnf \<or> hosts_get_name ew (addr sq) = HostsMiss)
                          \<and> f \<in> set (wset sB) \<and> f \<notin> set (rset sB)
                          \<and> int (length frame4) \<le> write_ret ew \<longrightarrow>
                          phaseB_entry h cnf ew er sqc sB
                            = Inr (sqc\<lparr>state := SOCKS_4AREQ_SENT\<rparr>,
                                   sB\<lparr>maxfd := maxfd sB - 1\<rparr>, [Write f frame4]))
                    \<and> (\<forall>ew er sB.
                          socks5 cnf = CONNTYPE_SOCKS5 \<and> getsockopt_ret ew = Some 0
                          \<and> f \<in> set (wset sB) \<and> f \<notin> set (rset sB) \<and> 3 \<le> write_ret ew \<longrightarrow>
                          phaseB_entry h cnf ew er sqc sB
                            = Inr (sqc\<lparr>state := SOCKS_5GREET_SENT\<rparr>,
                                   sB\<lparr>maxfd := maxfd sB - 1\<rparr>, [Write f [5, 1, 0]]))
                    \<and> (\<forall>ew er sB.
                          socks5 cnf = CONNTYPE_SOCKS5
                          \<and> socks5_greet_response er (sqc\<lparr>state := SOCKS_5GREET_SENT\<rparr>) \<noteq> - 1
                          \<and> (\<not> hosts_lookup cnf \<or> hosts_get_name er (addr sq) = HostsMiss)
                          \<and> f \<notin> set (wset sB) \<and> f \<in> set (rset sB)
                          \<and> int (length frame5) \<le> write_ret er \<longrightarrow>
                          phaseB_entry h cnf ew er (sqc\<lparr>state := SOCKS_5GREET_SENT\<rparr>) sB
                            = Inr (sqc\<lparr>state := SOCKS_5REQ_SENT\<rparr>,
                                   sB\<lparr>maxfd := maxfd sB - 1\<rparr>, [Write f frame5])))))"
proof -
  from phaseA_dns_sent_fallback [OF assms(2,3), of s]
  obtain sq' where r: "phaseA_dns_sent h cnf t e sq s = (sq', s, [Close (fd sq)])"
    "state sq' = SOCKS_NEW" "restart_time sq' = 0" "retry sq' = 1"
    "addr sq' = addr sq" "perm sq' = perm sq"
    by blast
  from assms(1) r(1) have first: "phaseA_entry h cnf t e sq s = (sq', s, [Close (fd sq)])"
    by (simp add: phaseA_entry_def)
  have later: "0 \<le> t' \<Longrightarrow> phaseA_entry h cnf t' e' sq' s' =
           (if perm sq = 0 \<and> SOCKS_MAX_RETRY h < 2
            then (sq'\<lparr>retry := 2, state := SOCKS_DELETE\<rparr>, s', [])
            else new_connect h cnf t' e' (sq'\<lparr>retry := 2\<rparr>) s')" for t' e' s'
    using phaseA_new_after_fallback [OF r(2,3,4), of t' h cnf e' s'] r(6) by simp
  have quiet: "0 \<le> t' \<Longrightarrow>
      (case phaseA_entry h cnf t' e' sq' s' of
         (sq'', s'', evs) \<Rightarrow>
           retry sq'' = 2 \<and> state sq'' \<noteq> SOCKS_DNS_SENT \<and> rset s'' = rset s'
           \<and> (\<forall>ev \<in> set evs. \<forall>b f. ev \<noteq> SendDns b f))" for t' e' s'
    using phaseA_entry_after_fallback [OF r(2,3,4), of t' h cnf e' s']
    by (cases "phaseA_entry h cnf t' e' sq' s'") simp
  have del: "0 \<le> t' \<Longrightarrow> perm sq = 0 \<and> SOCKS_MAX_RETRY h < 2 \<Longrightarrow>
      phaseA_entry h cnf t' e' sq' s' = (sq'\<lparr>retry := 2, state := SOCKS_DELETE\<rparr>, s', [])"
    for t' e' s'
    using later [of t' e' s'] by simp
  have direct: "0 \<le> t' \<Longrightarrow> (perm sq \<noteq> 0 \<or> 2 \<le> SOCKS_MAX_RETRY h)
      \<and> socks5 cnf = CONNTYPE_DIRECT
      \<and> (\<not> hosts_lookup cnf \<or> hosts_get_name e' (addr sq) = HostsMiss) \<Longrightarrow>
      phaseA_entry h cnf t' e' sq' s' = (sq'\<lparr>retry := 2\<rparr>, s', [])" for t' e' s'
    using later [of t' e' s'] new_connect_direct_miss [of cnf e' "sq'\<lparr>retry := 2\<rparr>" h t' s'] r(5)
    by auto
  have proxy: "0 \<le> t' \<Longrightarrow> (perm sq \<noteq> 0 \<or> 2 \<le> SOCKS_MAX_RETRY h)
      \<and> socks5 cnf \<noteq> CONNTYPE_DIRECT \<Longrightarrow>
      phaseA_entry h cnf t' e' sq' s' =
       (if socket_stream_ret e' = - 1 then (sq'\<lparr>retry := 2, fd := - 1\<rparr>, s', [])
        else if connect_ret e' = ConnError
        then (case socks_reschedule h e'
                     (sq'\<lparr>retry := 2, fd := socket_stream_ret e', connect_time := t'\<rparr>) of
                (sq3, evs') \<Rightarrow> (sq3, s', Connect (addr sq) (socket_stream_ret e') # evs'))
        else (sq'\<lparr>retry := 2, fd := socket_stream_ret e', connect_time := t',
                  state := SOCKS_CONNECTING\<rparr>,
              MFD_SET_wset (socket_stream_ret e') s',
              [Connect (addr sq) (socket_stream_ret e')]))" for t' e' s'
    using later [of t' e' s'] new_connect_proxy [of cnf h t' e' "sq'\<lparr>retry := 2\<rparr>" s'] r(5)
    by auto
  have frames: "let f = socket_stream_ret e';
           sqc = sq'\<lparr>retry := 2, fd := f, connect_time := t', state := SOCKS_CONNECTING\<rparr>;
           name = strlcat (ipv6tonion h (addr sq)) (domain cnf) NI_MAXHOST;
           frame4 = [4, 1] @ htons (ocat_dest_port cnf) @ [0, 0, 0, 1]
                    @ bytes_of (usrname cnf) @ [0] @ bytes_of name @ [0];
           frame5 = [5, 1, 0, 3, of_nat (length name)] @ bytes_of name
                    @ htons (ocat_dest_port cnf)
       in (\<forall>ew er sB.
             socks5 cnf = CONNTYPE_SOCKS4A \<and> getsockopt_ret ew = Some 0
             \<and> (\<not> hosts_lookup cnf \<or> hosts_get_name ew (addr sq) = HostsMiss)
             \<and> f \<in> set (wset sB) \<and> f \<notin> set (rset sB)
             \<and> int (length frame4) \<le> write_ret ew \<longrightarrow>
             phaseB_entry h cnf ew er sqc sB
               = Inr (sqc\<lparr>state := SOCKS_4AREQ_SENT\<rparr>,
                      sB\<lparr>maxfd := maxfd sB - 1\<rparr>, [Write f frame4]))
          \<and> (\<forall>ew er sB.
                socks5 cnf = CONNTYPE_SOCKS5 \<and> getsockopt_ret ew = Some 0
                \<and> f \<in> set (wset sB) \<and> f \<notin> set (rset sB) \<and> 3 \<le> write_ret ew \<longrightarrow>
                phaseB_entry h cnf ew er sqc sB
                  = Inr (sqc\<lparr>state := SOCKS_5GREET_SENT\<rparr>,
                         sB\<lparr>maxfd := maxfd sB - 1\<rparr>, [Write f [5, 1, 0]]))
          \<and> (\<forall>ew er sB.
                socks5 cnf = CONNTYPE_SOCKS5
                \<and> socks5_greet_response er (sqc\<lparr>state := SOCKS_5GREET_SENT\<rparr>) \<noteq> - 1
                \<and> (\<not> hosts_lookup cnf \<or> hosts_get_name er (addr sq) = HostsMiss)
                \<and> f \<notin> set (wset sB) \<and> f \<in> set (rset sB)
                \<and> int (length frame5) \<le> write_ret er \<longrightarrow>
                phaseB_entry h cnf ew er (sqc\<lparr>state := SOCKS_5GREET_SENT\<rparr>) sB
                  = Inr (sqc\<lparr>state := SOCKS_5REQ_SENT\<rparr>,
                         sB\<lparr>maxfd := maxfd sB - 1\<rparr>, [Write f frame5]))"
    for t' and e' :: Env
  proof -
    let ?f = "socket_stream_ret e'"
    let ?c = "sq'\<lparr>retry := 2, fd := ?f, connect_time := t', state := SOCKS_CONNECTING\<rparr>"
    let ?g = "?c\<lparr>state := SOCKS_5GREET_SENT\<rparr>"
    have c: "state ?c = SOCKS_CONNECTING" "addr ?c = addr sq" "fd ?c = ?f"
      and g: "state ?g = SOCKS_5GREET_SENT" "addr ?g = addr sq" "fd ?g = ?f"
        "?g\<lparr>state := SOCKS_5REQ_SENT\<rparr> = ?c\<lparr>state := SOCKS_5REQ_SENT\<rparr>"
      using r(5) by simp_all
    show ?thesis
      unfolding Let_def
      using phaseB_entry_send4a [where sq = ?c and cnf = cnf and h = h, unfolded c]
        phaseB_entry_greet5 [where sq = ?c and cnf = cnf and h = h, unfolded c]
        phaseB_entry_send5 [where sq = ?g and cnf = cnf and h = h, unfolded g]
      by blast
  qed
  show ?thesis
  proof (intro exI [of _ sq'] conjI allI impI)
    show "phaseA_entry h cnf t e sq s = (sq', s, [Close (fd sq)])" by (rule first)
  next
    fix t' :: time_t and e' :: Env and s' :: fd_sets
    assume t: "0 \<le> t'"
    assume a: "(perm sq \<noteq> 0 \<or> 2 \<le> SOCKS_MAX_RETRY h) \<and> socks5 cnf \<noteq> CONNTYPE_DIRECT
                \<and> socket_stream_ret e' \<noteq> - 1 \<and> connect_ret e' \<noteq> ConnError"
    from proxy [OF t, of e' s'] a
    have "phaseA_entry h cnf t' e' sq' s'
       = (sq'\<lparr>retry := 2, fd := socket_stream_ret e', connect_time := t',
                  state := SOCKS_CONNECTING\<rparr>,
              MFD_SET_wset (socket_stream_ret e') s',
              [Connect (addr sq) (socket_stream_ret e')])"
      by simp
    with frames [of e' t']
    show "let f = socket_stream_ret e';
                     sqc = sq'\<lparr>retry := 2, fd := f, connect_time := t',
                              state := SOCKS_CONNECTING\<rparr>;
                     name = strlcat (ipv6tonion h (addr sq)) (domain cnf) NI_MAXHOST;
                     frame4 = [4, 1] @ htons (ocat_dest_port cnf) @ [0, 0, 0, 1]
                              @ bytes_of (usrname cnf) @ [0] @ bytes_of name @ [0];
                     frame5 = [5, 1, 0, 3, of_nat (length name)] @ bytes_of name
                              @ htons (ocat_dest_port cnf)
                 in phaseA_entry h cnf t' e' sq' s'
                      = (sqc, MFD_SET_wset f s', [Connect (addr sq) f])
                    \<and> (\<forall>ew er sB.
                          socks5 cnf = CONNTYPE_SOCKS4A \<and> getsockopt_ret ew = Some 0
                          \<and> (\<not> hosts_lookup cnf \<or> hosts_get_name ew (addr sq) = HostsMiss)
                          \<and> f \<in> set (wset sB) \<and> f \<notin> set (rset sB)
                          \<and> int (length frame4) \<le> write_ret ew \<longrightarrow>
                          phaseB_entry h cnf ew er sqc sB
                            = Inr (sqc\<lparr>state := SOCKS_4AREQ_SENT\<rparr>,
                                   sB\<lparr>maxfd := maxfd sB - 1\<rparr>, [Write f frame4]))
                    \<and> (\<forall>ew er sB.
                          socks5 cnf = CONNTYPE_SOCKS5 \<and> getsockopt_ret ew = Some 0
                          \<and> f \<in> set (wset sB) \<and> f \<notin> set (rset sB) \<and> 3 \<le> write_ret ew \<longrightarrow>
                          phaseB_entry h cnf ew er sqc sB
                            = Inr (sqc\<lparr>state := SOCKS_5GREET_SENT\<rparr>,
                                   sB\<lparr>maxfd := maxfd sB - 1\<rparr>, [Write f [5, 1, 0]]))
                    \<and> (\<forall>ew er sB.
                          socks5 cnf = CONNTYPE_SOCKS5
                          \<and> socks5_greet_response er (sqc\<lparr>state := SOCKS_5GREET_SENT\<rparr>) \<noteq> - 1
                          \<and> (\<not> hosts_lookup cnf \<or> hosts_get_name er (addr sq) = HostsMiss)
                          \<and> f \<notin> set (wset sB) \<and> f \<in> set (rset sB)
                          \<and> int (length frame5) \<le> write_ret er \<longrightarrow>
                          phaseB_entry h cnf ew er (sqc\<lparr>state := SOCKS_5GREET_SENT\<rparr>) sB
                            = Inr (sqc\<lparr>state := SOCKS_5REQ_SENT\<rparr>,
                                   sB\<lparr>maxfd := maxfd sB - 1\<rparr>, [Write f frame5]))"
      unfolding Let_def by blast
  qed (use r quiet del direct proxy in \<open>simp_all\<close>)
qed


theorem dns_sent_fallback_witness:
  "phaseA_entry example_h (example_cnf\<lparr>dns_lookup := True\<rparr>) 100 quiet_env
     (zero_SocksQueue\<lparr>addr := 1, state := SOCKS_DNS_SENT, fd := 7, retry := 3,
                      restart_time := 98\<rparr>)
     \<lparr>rset = [3], wset = [], maxfd = 3\<rparr>
   = (zero_SocksQueue\<lparr>addr := 1, state := SOCKS_NEW, fd := 7, retry := 1, restart_time := 0\<rparr>,
      \<lparr>rset = [3], wset = [], maxfd = 3\<rparr>, [Close 7])
   \<and> phaseA_entry example_h (example_cnf\<lparr>dns_lookup := True\<rparr>) 102
       (quiet_env\<lparr>socket_stream_ret := 8, connect_ret := ConnInProgress\<rparr>)
       (zero_SocksQueue\<lparr>addr := 1, state := SOCKS_NEW, fd := 7, retry := 1, restart_time := 0\<rparr>)
       \<lparr>rset = [3], wset = [], maxfd = 3\<rparr>
   = (zero_SocksQueue\<lparr>addr := 1, state := SOCKS_CONNECTING, fd := 8, retry := 2,
                       connect_time := 102, restart_time := 0\<rparr>,
      \<lparr>rset = [3], wset = [8], maxfd = 8\<rparr>, [Connect 1 8])
   \<and> phaseB_entry example_h (example_cnf\<lparr>dns_lookup := True\<rparr>)
       (quiet_env\<lparr>getsockopt_ret := Some 0, write_ret := 3\<rparr>) quiet_env
       (zero_SocksQueue\<lparr>addr := 1, state := SOCKS_CONNECTING, fd := 8, retry := 2,
                        connect_time := 102, restart_time := 0\<rparr>)
       \<lparr>rset = [], wset = [8], maxfd = 1\<rparr>
   = Inr (zero_SocksQueue\<lparr>addr := 1, state := SOCKS_5GREET_SENT, fd := 8, retry := 2,
                           connect_time := 102, restart_time := 0\<rparr>,
          \<lparr>rset = [], wset = [8], maxfd = 0\<rparr>, [Write 8 [5, 1, 0]])
   \<and> phaseB_entry example_h (example_cnf\<lparr>dns_lookup := True\<rparr>) quiet_env
       (quiet_env\<lparr>read_ret := ReadData [5, 0], write_ret := 29\<rparr>)
       (zero_SocksQueue\<lparr>addr := 1, state := SOCKS_5GREET_SENT, fd := 8, retry := 2,
                        connect_time := 102, restart_time := 0\<rparr>)
       \<lparr>rset = [8], wset = [], maxfd = 1\<rparr>
   = Inr (zero_SocksQueue\<lparr>addr := 1, state := SOCKS_5REQ_SENT, fd := 8, retry := 2,
                           connect_time := 102, restart_time := 0\<rparr>,
          \<lparr>rset = [8], wset = [], maxfd = 0\<rparr>,
          [Write 8 ([5, 1, 0, 3, 22] @ bytes_of ''abcdefghijklmnop.onion'' @ [31, 124])])
   \<and> phaseA_entry example_h (example_cnf\<lparr>dns_lookup := True\<rparr>) 100 quiet_env
       (zero_SocksQueue\<lparr>addr := 2, state := SOCKS_DNS_SENT, fd := 9, restart_time := 98\<rparr>)
       \<lparr>rset = [3], wset = [], maxfd = 3\<rparr>
   = (zero_SocksQueue\<lparr>addr := 2, state := SOCKS_NEW, fd := 9, retry := 1, restart_time := 0\<rparr>,
      \<lparr>rset = [3], wset = [], maxfd = 3\<rparr>, [Close 9])"
  using
    dns_sent_fallback
      [of "zero_SocksQueue\<lparr>addr := 1, state := SOCKS_DNS_SENT, fd := 7, retry := 3,
                           restart_time := 98\<rparr>"
          100 example_h "example_cnf\<lparr>dns_lookup := True\<rparr>" quiet_env
          "\<lparr>rset = [3], wset = [], maxfd = 3\<rparr>"]
    dns_sent_fallback
      [of "zero_SocksQueue\<lparr>addr := 2, state := SOCKS_DNS_SENT, fd := 9, restart_time := 98\<rparr>"
          100 example_h "example_cnf\<lparr>dns_lookup := True\<rparr>" quiet_env
          "\<lparr>rset = [3], wset = [], maxfd = 3\<rparr>"]
  by (simp add: example_h_def example_cnf_def quiet_env_def zero_SocksQueue_def
        phaseA_entry_def phaseA_dns_sent_def phaseA_new_def new_connect_def get_hostname_def
        socks_tcp_connect_def socks_dns_req_def MFD_SET_wset_def Let_def
        phaseB_entry_def dispatch_wset_def dispatch_rset_def socks5_greet_def write_frame_def
        socks5_greet_response_def sys_read_def socks5_send_request_def strlcat_def
        NI_MAXHOST_def htons_def bytes_of_def)

text \<open>The claim as it was stated has the request proceed with the derived name on the
  next pass. In direct mode, with no name in the hosts table, it does not: after the
  DNS probe is given up, the passes that follow make no connection attempt, although a
  socket could be made and connected, and the fourth marks the (temporary) request for
  deletion.\<close>

theorem dns_sent_fallback_counterexample:
  "phaseA_entry example_h (example_cnf\<lparr>socks5 := CONNTYPE_DIRECT, dns_lookup := True\<rparr>) 100
     quiet_env
     (zero_SocksQueue\<lparr>addr := 1, state := SOCKS_DNS_SENT, fd := 7, retry := 3,
                      restart_time := 98\<rparr>)
     \<lparr>rset = [3], wset = [], maxfd = 3\<rparr>
   = (zero_SocksQueue\<lparr>addr := 1, state := SOCKS_NEW, fd := 7, retry := 1, restart_time := 0\<rparr>,
      \<lparr>rset = [3], wset = [], maxfd = 3\<rparr>, [Close 7])
   \<and> phaseA_entry example_h (example_cnf\<lparr>socks5 := CONNTYPE_DIRECT, dns_lookup := True\<rparr>) 102
       (quiet_env\<lparr>socket_stream_ret := 8, connect_ret := ConnEstablished\<rparr>)
       (zero_SocksQueue\<lparr>addr := 1, state := SOCKS_NEW, fd := 7, retry := 1, restart_time := 0\<rparr>)
       \<lparr>rset = [3], wset = [], maxfd = 3\<rparr>
   = (zero_SocksQueue\<lparr>addr := 1, state := SOCKS_NEW, fd := 7, retry := 2, restart_time := 0\<rparr>,
      \<lparr>rset = [3], wset = [], maxfd = 3\<rparr>, [])
   \<and> phaseA_entry example_h (example_cnf\<lparr>socks5 := CONNTYPE_DIRECT, dns_lookup := True\<rparr>) 104
       (quiet_env\<lparr>socket_stream_ret := 8, connect_ret := ConnEstablished\<rparr>)
       (zero_SocksQueue\<lparr>addr := 1, state := SOCKS_NEW, fd := 7, retry := 2, restart_time := 0\<rparr>)
       \<lparr>rset = [3], wset = [], maxfd = 3\<rparr>
   = (zero_SocksQueue\<lparr>addr := 1, state := SOCKS_NEW, fd := 7, retry := 3, restart_time := 0\<rparr>,
      \<lparr>rset = [3], wset = [], maxfd = 3\<rparr>, [])
   \<and> phaseA_entry example_h (example_cnf\<lparr>socks5 := CONNTYPE_DIRECT, dns_lookup := True\<rparr>) 106
       (quiet_env\<lparr>socket_stream_ret := 8, connect_ret := ConnEstablished\<rparr>)
       (zero_SocksQueue\<lparr>addr := 1, state := SOCKS_NEW, fd := 7, retry := 3, restart_time := 0\<rparr>)
       \<lparr>rset = [3], wset = [], maxfd = 3\<rparr>
   = (zero_SocksQueue\<lparr>addr := 1, state := SOCKS_DELETE, fd := 7, retry := 4,
                       restart_time := 0\<rparr>,
      \<lparr>rset = [3], wset = [], maxfd = 3\<rparr>, [])"
  by (simp add: example_h_def example_cnf_def quiet_env_def zero_SocksQueue_def
        phaseA_entry_def phaseA_dns_sent_def phaseA_new_def new_connect_def get_hostname_def
        Let_def)

subsection \<open>Connection attempts of temporary requests\<close>

lemma count_event_simps [simp]:
  "count_event a (Close f) l = l"
  "count_event a (SendDns b f) l = l"
  "count_event a (Write f bs) l = l"
  "count_event a (InsertPeer f b t) l = l"
  "count_event a (Dprintf f n sq) l = l"
  "count_event a (Free b) l = l"
  "count_event a (Malloc sq) l = (if addr sq = a then Some (perm sq, 0) else l)"
  "count_event a (Connect b f) l = (if b = a then map_option (\<lambda>(p, c). (p, Suc c)) l else l)"
  by (simp_all add: count_event_def)

lemma fold_silent:
  "\<forall>ev \<in> set evs. silent_event ev \<Longrightarrow> fold (count_event a) evs l = l"
proof (induction evs arbitrary: l)
  case Nil
  then show ?case by simp
next
  case (Cons ev evs)
  then show ?case by (cases ev) simp_all
qed

lemma counts_silent: "\<forall>ev \<in> set evs. silent_event ev \<Longrightarrow> counts a evs 0"
  by (simp add: counts_def fold_silent option.map_id)

lemma foreign_silent: "\<forall>ev \<in> set evs. silent_event ev \<Longrightarrow> foreign A evs"
  by (simp add: foreign_def fold_silent)

lemma counts_append: "counts a evs j \<Longrightarrow> counts a evs' k \<Longrightarrow> counts a (evs @ evs') (j + k)"
  by (auto simp: counts_def option.map_comp comp_def split_def ac_simps)

lemma foreign_append: "foreign A evs \<Longrightarrow> foreign A evs' \<Longrightarrow> foreign A (evs @ evs')"
  by (simp add: foreign_def)

lemma foreign_mono: "foreign A evs \<Longrightarrow> A \<subseteq> B \<Longrightarrow> foreign B evs"
  by (auto simp: foreign_def)

lemma counts_connect_first:
  "\<forall>ev \<in> set rest. silent_event ev \<Longrightarrow> counts a (Connect a f # rest) (Suc 0)"
  by (auto simp: counts_def fold_silent)

lemma foreign_connect_first:
  "\<forall>ev \<in> set rest. silent_event ev \<Longrightarrow> foreign {a} (Connect a f # rest)"
  by (auto simp: foreign_def fold_silent)

lemma tracksI:
  "addr sq' = addr sq \<Longrightarrow> perm sq' = perm sq \<Longrightarrow> counts (addr sq) evs k
   \<Longrightarrow> (\<And>c. entry_ok h sq c \<Longrightarrow> entry_ok h sq' (c + k)) \<Longrightarrow> tracks h evs sq sq'"
  by (auto simp: tracks_def)

lemma tracks_silentI:
  "addr sq' = addr sq \<Longrightarrow> perm sq' = perm sq \<Longrightarrow> \<forall>ev \<in> set evs. silent_event ev
   \<Longrightarrow> (\<And>c. entry_ok h sq c \<Longrightarrow> entry_ok h sq' c) \<Longrightarrow> tracks h evs sq sq'"
  by (rule tracksI [where k = 0]) (simp_all add: counts_silent)

lemma tracks_silent_prefix:
  assumes "tracks h evs sq sq'" "\<forall>ev \<in> set pre. silent_event ev"
  shows "tracks h (pre @ evs) sq sq'"
proof -
  from assms(1) obtain k where k: "addr sq' = addr sq" "perm sq' = perm sq"
    "counts (addr sq) evs k" "\<forall>c. entry_ok h sq c \<longrightarrow> entry_ok h sq' (c + k)"
    by (auto simp: tracks_def)
  from counts_append [OF counts_silent [OF assms(2)] k(3)]
  have "counts (addr sq) (pre @ evs) k" by simp
  with k show ?thesis by (auto simp: tracks_def)
qed

lemma entry_ok_keep:
  "entry_ok h sq c \<Longrightarrow> perm sq' = perm sq \<Longrightarrow> retry sq \<le> retry sq'
   \<Longrightarrow> state sq' = state sq \<or> state sq' \<noteq> SOCKS_DNS_SENT \<Longrightarrow> entry_ok h sq' c"
  by (auto simp: entry_ok_def)

lemma entry_ok_dns:
  "entry_ok h sq c \<Longrightarrow> state sq = SOCKS_DNS_SENT \<Longrightarrow> perm sq' = perm sq \<Longrightarrow> 0 \<le> retry sq'
   \<Longrightarrow> entry_ok h sq' c"
  by (auto simp: entry_ok_def)

lemma new_connect_shape:
  assumes "new_connect h cnf t e sq s = (sq', s', evs)"
  shows "addr sq' = addr sq \<and> perm sq' = perm sq \<and> retry sq' = retry sq
         \<and> (state sq' = state sq \<or> state sq' = SOCKS_NEW \<or> state sq' = SOCKS_CONNECTING)
         \<and> (evs = [] \<or> (\<exists>f rest. evs = Connect (addr sq) f # rest \<and> (\<forall>ev \<in> set rest. silent_event ev)))"
  using assms
  by (auto simp: new_connect_def Let_def socks_reschedule_eq socks_tcp_connect_def
           split: if_splits prod.splits option.splits connect_result.splits)

lemma new_connect_tracks:
  assumes nc: "new_connect h cnf t e sq1 s = (sq', s', evs)"
    and sq1: "addr sq1 = addr sq" "perm sq1 = perm sq" "retry sq1 = retry sq + 1"
      "state sq1 = SOCKS_NEW"
    and lim: "perm sq = 0 \<longrightarrow> retry sq + 1 \<le> SOCKS_MAX_RETRY h"
  shows "tracks h evs sq sq'" and "foreign {addr sq} evs"
proof -
  from new_connect_shape [OF nc] sq1
  have f: "addr sq' = addr sq" "perm sq' = perm sq" "retry sq' = retry sq + 1"
    "state sq' \<noteq> SOCKS_DNS_SENT"
    and ev: "evs = [] \<or> (\<exists>f rest. evs = Connect (addr sq) f # rest \<and> (\<forall>ev \<in> set rest. silent_event ev))"
    by auto
  from ev show "tracks h evs sq sq'"
  proof
    assume "evs = []"
    with f lim show ?thesis
      by (intro tracks_silentI) (auto simp: entry_ok_def)
  next
    assume "\<exists>f rest. evs = Connect (addr sq) f # rest \<and> (\<forall>ev \<in> set rest. silent_event ev)"
    then have "counts (addr sq) evs (Suc 0)"
      by (auto intro: counts_connect_first)
    with f lim show ?thesis
      by (intro tracksI [where k = "Suc 0"]) (auto simp: entry_ok_def)
  qed
  from ev show "foreign {addr sq} evs"
    by (auto intro: foreign_connect_first foreign_silent)
qed

lemma phaseA_new_tracks:
  assumes res: "phaseA_new h cnf t e sq s = (sq', s', evs)" and st: "state sq = SOCKS_NEW"
  shows "tracks h evs sq sq' \<and> foreign {addr sq} evs"
proof (cases "t < restart_time sq")
  case True
  with res have "sq' = sq" "evs = []" by (simp_all add: phaseA_new_def)
  then show ?thesis by (auto intro: tracks_silentI foreign_silent)
next
  case late: False
  show ?thesis
  proof (cases "perm sq = 0 \<and> retry sq + 1 > SOCKS_MAX_RETRY h")
    case True
    with res late have "sq' = sq\<lparr>retry := retry sq + 1, state := SOCKS_DELETE\<rparr>" "evs = []"
      by (simp_all add: phaseA_new_def Let_def)
    then show ?thesis
      by (auto intro!: tracks_silentI foreign_silent simp: entry_ok_def)
  next
    case lim: False
    show ?thesis
    proof (cases "dns_lookup cnf \<and> fst (get_hostname h cnf e (sq\<lparr>retry := retry sq + 1\<rparr>) False 0) = - 1
                    \<and> retry sq + 1 \<le> 1")
      case False
      with res late lim have "new_connect h cnf t e (sq\<lparr>retry := retry sq + 1\<rparr>) s = (sq', s', evs)"
        by (auto simp: phaseA_new_def Let_def)
      from new_connect_tracks [OF this, of sq] lim st show ?thesis by auto
    next
      case dns: True
      show ?thesis
      proof (cases "socket_dgram_ret e = - 1")
        case True
        with res late lim dns
        have "new_connect h cnf t e (sq\<lparr>retry := retry sq + 1, fd := - 1\<rparr>) s = (sq', s', evs)"
          by (auto simp: phaseA_new_def Let_def)
        from new_connect_tracks [OF this, of sq] lim st show ?thesis by auto
      next
        case sock: False
        let ?sq3 = "sq\<lparr>retry := retry sq + 1, fd := socket_dgram_ret e, dns_id := rand_ret e\<rparr>"
        obtain r sq4 evs1 where dr: "socks_dns_req cnf e ?sq3 = (r, sq4, evs1)"
          by (metis prod_cases3)
        note f4 = socks_dns_req_fields [OF dr]
        show ?thesis
        proof (cases "r = - 1")
          case True
          with res late lim dns sock dr
          obtain evs' where nc: "new_connect h cnf t e sq4 s = (sq', s', evs')"
            and evs: "evs = (evs1 @ [Close (fd sq4)]) @ evs'"
            by (auto simp: phaseA_new_def Let_def split: prod.splits)
          from new_connect_tracks [OF nc, of sq] f4 lim st
          have "tracks h evs' sq sq'" "foreign {addr sq} evs'" by auto
          moreover from f4 have "\<forall>ev \<in> set (evs1 @ [Close (fd sq4)]). silent_event ev" by auto
          ultimately have "tracks h ((evs1 @ [Close (fd sq4)]) @ evs') sq sq'"
            "foreign {addr sq} ((evs1 @ [Close (fd sq4)]) @ evs')"
            by (blast intro: tracks_silent_prefix foreign_append foreign_silent)+
          then show ?thesis
            unfolding evs by blast
        next
          case False
          with res late lim dns sock dr
          have r: "sq' = sq4\<lparr>state := SOCKS_DNS_SENT, retry := 0,
                             restart_time := t + SOCKS_DNS_RETRY_TIMEOUT h\<rparr>"
            "evs = evs1"
            by (auto simp: phaseA_new_def Let_def split: prod.splits)
          with f4 dns show ?thesis
            by (auto intro!: tracks_silentI foreign_silent simp: entry_ok_def)
        qed
      qed
    qed
  qed
qed

lemma phaseA_dns_sent_tracks:
  assumes res: "phaseA_dns_sent h cnf t e sq s = (sq', s', evs)" and st: "state sq = SOCKS_DNS_SENT"
  shows "tracks h evs sq sq' \<and> foreign {addr sq} evs"
proof -
  obtain r sq1 evs1 where dr: "socks_dns_req cnf e sq = (r, sq1, evs1)"
    by (metis prod_cases3)
  note f1 = socks_dns_req_fields [OF dr]
  from res dr f1 have f: "addr sq' = addr sq" "perm sq' = perm sq" "\<forall>ev \<in> set evs. silent_event ev"
    and r: "sq' = sq \<or> retry sq' = retry sq + 1 \<or> retry sq' = 1"
    by (auto simp: phaseA_dns_sent_def Let_def split: if_splits prod.splits)
  have "entry_ok h sq' c" if "entry_ok h sq c" for c
    using r
  proof
    assume "sq' = sq" with that show ?thesis by simp
  next
    assume "retry sq' = retry sq + 1 \<or> retry sq' = 1"
    with that st f(2) show ?thesis
      by (auto simp: entry_ok_def)
  qed
  with f show ?thesis
    by (auto intro!: tracks_silentI foreign_silent)
qed

lemma phaseA_entry_tracks:
  assumes "phaseA_entry h cnf t e sq s = (sq', s', evs)"
  shows "tracks h evs sq sq' \<and> foreign {addr sq} evs"
proof (cases "state sq")
  case SOCKS_NEW
  with assms phaseA_new_tracks show ?thesis by (simp add: phaseA_entry_def)
next
  case SOCKS_DNS_SENT
  with assms phaseA_dns_sent_tracks show ?thesis by (simp add: phaseA_entry_def)
next
  case SOCKS_CONNECTING
  with assms show ?thesis
    by (auto simp: phaseA_entry_def socks_reset_eq intro!: tracks_silentI foreign_silent
          elim: entry_ok_keep)
next
  case SOCKS_READY
  with assms show ?thesis
    by (auto simp: phaseA_entry_def socks_reset_eq intro!: tracks_silentI foreign_silent
          elim: entry_ok_keep)
qed (use assms in \<open>auto simp: phaseA_entry_def intro!: tracks_silentI foreign_silent\<close>)

lemma write_frame_silent: "\<forall>ev \<in> set (snd (write_frame e sq buf)). silent_event ev"
  by (auto simp: write_frame_def Let_def)

lemma senders_silent:
  "\<forall>ev \<in> set (snd (socks_send_request h cnf e sq)). silent_event ev"
  "\<forall>ev \<in> set (snd (socks5_greet e sq)). silent_event ev"
  "\<forall>ev \<in> set (snd (socks5_send_request h cnf e sq)). silent_event ev"
  by (simp_all add: socks_send_request_def socks5_greet_def socks5_send_request_def Let_def
        write_frame_silent)

lemma dispatch_wset_shape:
  assumes "dispatch_wset h cnf e sq = Inr (c, sq', evs)"
  shows "addr sq' = addr sq \<and> perm sq' = perm sq \<and> retry sq' = retry sq
         \<and> (state sq' = state sq \<or> state sq' \<noteq> SOCKS_DNS_SENT)
         \<and> (\<forall>ev \<in> set evs. silent_event ev)"
proof (cases "state sq = SOCKS_CONNECTING")
  case False
  with assms show ?thesis by (simp add: dispatch_wset_def)
next
  case True
  obtain r1 evs1 where s1: "socks_send_request h cnf e sq = (r1, evs1)" by (cases "socks_send_request h cnf e sq")
  obtain r2 evs2 where s2: "socks5_greet e sq = (r2, evs2)" by (cases "socks5_greet e sq")
  from senders_silent(1) [of h cnf e sq] s1 have "\<forall>ev \<in> set evs1. silent_event ev" by simp
  moreover from senders_silent(2) [of e sq] s2 have "\<forall>ev \<in> set evs2. silent_event ev" by simp
  ultimately show ?thesis
    using assms True s1 s2
    by (auto simp: dispatch_wset_def socks_reschedule_eq socks_activate_peer_def
          split: if_splits option.splits)
qed

lemma dispatch_rset_shape:
  assumes "dispatch_rset h cnf e sq = (sq', evs)"
  shows "addr sq' = addr sq \<and> perm sq' = perm sq
         \<and> (retry sq' = retry sq \<and> (state sq' = state sq \<or> state sq' \<noteq> SOCKS_DNS_SENT)
            \<or> state sq = SOCKS_DNS_SENT \<and> 0 \<le> retry sq')
         \<and> (\<forall>ev \<in> set evs. silent_event ev)"
proof -
  obtain r1 evs1 where s1: "socks5_send_request h cnf e sq = (r1, evs1)"
    by (cases "socks5_send_request h cnf e sq")
  from senders_silent(3) [of h cnf e sq] s1 have "\<forall>ev \<in> set evs1. silent_event ev" by simp
  then show ?thesis
    using assms s1
    by (cases "state sq")
       (auto simp: dispatch_rset_def socks_reschedule_eq socks_reset_eq socks_activate_peer_def
          split: if_splits)
qed

lemma phaseB_entry_tracks:
  assumes "phaseB_entry h cnf ew er sq s = Inr (sq', s', evs)"
  shows "tracks h evs sq sq' \<and> foreign {addr sq} evs"
proof -
  from assms obtain c sq1 evs1 where
    w: "sq1 = sq \<and> evs1 = [] \<or> dispatch_wset h cnf ew sq = Inr (c, sq1, evs1)"
    and r: "sq' = sq1 \<and> evs = evs1
            \<or> (\<exists>evs2. dispatch_rset h cnf er sq1 = (sq', evs2) \<and> evs = evs1 @ evs2)"
    by (auto simp: phaseB_entry_def split: if_splits sum.splits prod.splits)
  from w have w': "addr sq1 = addr sq \<and> perm sq1 = perm sq \<and> retry sq1 = retry sq
         \<and> (state sq1 = state sq \<or> state sq1 \<noteq> SOCKS_DNS_SENT)
         \<and> (\<forall>ev \<in> set evs1. silent_event ev)"
    using dispatch_wset_shape [of h cnf ew sq c sq1 evs1] by auto
  then have ok1: "entry_ok h sq1 k" if "entry_ok h sq k" for k
    using that by (auto elim: entry_ok_keep)
  from r have r': "addr sq' = addr sq1 \<and> perm sq' = perm sq1
         \<and> (retry sq' = retry sq1 \<and> (state sq' = state sq1 \<or> state sq' \<noteq> SOCKS_DNS_SENT)
            \<or> state sq1 = SOCKS_DNS_SENT \<and> 0 \<le> retry sq')
         \<and> (\<forall>ev \<in> set evs. silent_event ev)"
  proof
    assume "sq' = sq1 \<and> evs = evs1"
    with w' show ?thesis by simp
  next
    assume "\<exists>evs2. dispatch_rset h cnf er sq1 = (sq', evs2) \<and> evs = evs1 @ evs2"
    then obtain evs2 where "dispatch_rset h cnf er sq1 = (sq', evs2)" "evs = evs1 @ evs2"
      by blast
    with dispatch_rset_shape [of h cnf er sq1 sq' evs2] w' show ?thesis by auto
  qed
  then have ok2: "entry_ok h sq' k" if "entry_ok h sq1 k" for k
    using that by (auto simp: entry_ok_def)
  from w' r' ok1 ok2 show ?thesis
    by (auto intro!: tracks_silentI foreign_silent)
qed

text \<open>From one request to the whole queue: the requests of a queue with distinct
  addresses do not disturb each other's counts.\<close>

lemma tracks_foreign_prefix:
  assumes "tracks h evs sq sq'" "foreign A pre" "addr sq \<notin> A"
  shows "tracks h (pre @ evs) sq sq'"
  using assms by (auto simp: tracks_def counts_def foreign_def)

lemma tracks_foreign_suffix:
  assumes "tracks h evs sq sq'" "foreign A post" "addr sq \<notin> A"
  shows "tracks h (evs @ post) sq sq'"
  using assms by (auto simp: tracks_def counts_def foreign_def)

lemma tracks_Cons:
  assumes x: "tracks h evs1 x x'" "foreign {addr x} evs1"
    and rest: "list_all2 (tracks h evs2) rest rest'" "foreign (addr ` set rest) evs2"
    and new: "addr x \<notin> addr ` set rest"
  shows "list_all2 (tracks h (evs1 @ evs2)) (x # rest) (x' # rest')
         \<and> foreign (addr ` set (x # rest)) (evs1 @ evs2)"
proof -
  from x(1) rest(2) new have "tracks h (evs1 @ evs2) x x'"
    by (rule tracks_foreign_suffix)
  moreover have "list_all2 (tracks h (evs1 @ evs2)) rest rest'"
    using rest(1)
  proof (rule list.rel_mono_strong)
    fix y y' assume "y \<in> set rest" "tracks h evs2 y y'"
    with new have "addr y \<notin> {addr x}" by (metis image_eqI singletonD)
    with \<open>tracks h evs2 y y'\<close> x(2) show "tracks h (evs1 @ evs2) y y'"
      by (rule tracks_foreign_prefix)
  qed
  moreover have "foreign (addr ` set (x # rest)) (evs1 @ evs2)"
    using x(2) rest(2) by (auto intro!: foreign_append elim: foreign_mono)
  ultimately show ?thesis by simp
qed

lemma phaseA_tracks:
  assumes "phaseA h cnf t es i q s = (q', s', evs)" "distinct (map addr q)"
  shows "list_all2 (tracks h evs) q q' \<and> foreign (addr ` set q) evs"
  using assms
proof (induction q arbitrary: i s q' s' evs)
  case Nil
  then show ?case by (simp add: foreign_silent)
next
  case (Cons x rest)
  from Cons.prems(1) obtain x' s1 evs1 rest' evs2 where
    e: "phaseA_entry h cnf t (es i) x s = (x', s1, evs1)"
    and r: "phaseA h cnf t es (Suc i) rest s1 = (rest', s', evs2)"
    and eq: "q' = x' # rest'" "evs = evs1 @ evs2"
    by (auto split: prod.splits)
  from Cons.IH [OF r] Cons.prems(2)
  have "list_all2 (tracks h evs2) rest rest'" "foreign (addr ` set rest) evs2" by auto
  with phaseA_entry_tracks [OF e] Cons.prems(2) show ?case
    unfolding eq by (intro tracks_Cons) auto
qed

lemma list_all2_tracks_refl: "list_all2 (tracks h []) q q"
  by (auto simp: list_all2_same intro: tracks_silentI)

lemma phaseB_tracks:
  assumes "phaseB h cnf ews ers i q s = Inr (q', s', evs)" "distinct (map addr q)"
  shows "list_all2 (tracks h evs) q q' \<and> foreign (addr ` set q) evs"
  using assms
proof (induction q arbitrary: i s q' s' evs)
  case Nil
  then show ?case by (simp add: foreign_silent)
next
  case (Cons x rest)
  show ?case
  proof (cases "maxfd s = 0")
    case True
    with Cons.prems(1) have "q' = x # rest" "evs = []" by auto
    then show ?thesis
      using list_all2_tracks_refl [of h "x # rest"] by (simp add: foreign_silent)
  next
    case False
    with Cons.prems(1) obtain x' s1 evs1 rest' evs2 where
      e: "phaseB_entry h cnf (ews i) (ers i) x s = Inr (x', s1, evs1)"
      and r: "phaseB h cnf ews ers (Suc i) rest s1 = Inr (rest', s', evs2)"
      and eq: "q' = x' # rest'" "evs = evs1 @ evs2"
      by (auto split: sum.splits prod.splits)
    from Cons.IH [OF r] Cons.prems(2)
    have "list_all2 (tracks h evs2) rest rest'" "foreign (addr ` set rest) evs2" by auto
    with phaseB_entry_tracks [OF e] Cons.prems(2) show ?thesis
      unfolding eq by (intro tracks_Cons) auto
  qed
qed

lemma attempts_append: "attempts a (tr @ evs) = fold (count_event a) evs (attempts a tr)"
  by (simp add: attempts_def)

lemma list_all2_tracks_addrs: "list_all2 (tracks h evs) q q' \<Longrightarrow> map addr q' = map addr q"
  by (induction rule: list_all2_induct) (auto simp: tracks_def)

lemma queue_ok_step:
  assumes ok: "queue_ok h q tr" and tr: "list_all2 (tracks h evs) q q'"
    and fo: "foreign (addr ` set q) evs"
  shows "queue_ok h q' (tr @ evs)"
proof -
  have addrs: "map addr q' = map addr q" using tr by (rule list_all2_tracks_addrs)
  then have sets: "addr ` set q' = addr ` set q" by (metis set_map)
  have "\<exists>c. attempts (addr sq') (tr @ evs) = Some (perm sq', c) \<and> entry_ok h sq' c"
    if "sq' \<in> set q'" for sq'
  proof -
    from that tr obtain sq where sq: "sq \<in> set q" "tracks h evs sq sq'"
      by (metis in_set_conv_nth list_all2_conv_all_nth)
    from ok sq(1) obtain c where c: "attempts (addr sq) tr = Some (perm sq, c)" "entry_ok h sq c"
      by (auto simp: queue_ok_def)
    from sq(2) obtain k where k: "addr sq' = addr sq" "perm sq' = perm sq"
      "counts (addr sq) evs k" "entry_ok h sq' (c + k)"
      using c(2) by (auto simp: tracks_def)
    from k(3) c(1) have "attempts (addr sq) (tr @ evs) = Some (perm sq, c + k)"
      by (simp add: attempts_append counts_def)
    with k show ?thesis by auto
  qed
  moreover have "int c \<le> SOCKS_MAX_RETRY h"
    if "a \<notin> addr ` set q'" "attempts a (tr @ evs) = Some (0, c)" for a c
  proof -
    from that(1) sets have "a \<notin> addr ` set q" by simp
    with fo that(2) have "attempts a tr = Some (0, c)"
      by (simp add: attempts_append foreign_def)
    with ok \<open>a \<notin> addr ` set q\<close> show ?thesis by (auto simp: queue_ok_def)
  qed
  moreover from ok addrs have "distinct (map addr q')" by (simp add: queue_ok_def)
  ultimately show ?thesis by (auto simp: queue_ok_def)
qed

lemma queue_ok_silent:
  assumes "queue_ok h q tr" "\<forall>ev \<in> set evs. silent_event ev"
  shows "queue_ok h q (tr @ evs)"
  using assms by (simp add: queue_ok_def attempts_append fold_silent)

lemma queue_ok_enqueue:
  assumes ok: "queue_ok h q tr" and new: "addr sq \<notin> addr ` set q"
    and fresh: "retry sq = 0" and lim: "0 \<le> SOCKS_MAX_RETRY h"
  shows "queue_ok h (sq # q) (tr @ [Malloc sq])"
proof -
  have "attempts a (tr @ [Malloc sq]) = (if a = addr sq then Some (perm sq, 0) else attempts a tr)" for a
    by (auto simp: attempts_append)
  moreover from new have "\<forall>x \<in> set q. addr x \<noteq> addr sq" by (metis image_eqI)
  ultimately show ?thesis
    using ok new fresh lim by (auto simp: queue_ok_def entry_ok_def)
qed

lemma read_pipe_queue_ok:
  assumes "read_pipe p ok q = Inr (q', evs)" "queue_ok h q tr" "written_here p"
    "0 \<le> SOCKS_MAX_RETRY h"
  shows "queue_ok h q' (tr @ evs)"
proof (cases p)
  case (PipeRecord nxt sq)
  from assms(3) PipeRecord have z: "retry sq = 0"
    by (simp add: written_here_def zero_SocksQueue_def)
       (metis SocksQueue.select_convs(5) SocksQueue.surjective)
  show ?thesis
  proof (cases "nxt \<noteq> 0 \<or> addr sq = 0 \<or> socks_get_req q (addr sq) \<noteq> None")
    case True
    with assms(1) PipeRecord have "q' = q" "\<forall>ev \<in> set evs. silent_event ev"
      by (auto simp: read_pipe_def socks_output_queue_def socks_enqueue_def split: if_splits)
    with assms(2) show ?thesis by (simp add: queue_ok_silent)
  next
    case False
    with assms(1) PipeRecord have "q' = sq # q" "evs = [Malloc sq]" "addr sq \<notin> addr ` set q"
      by (auto simp: read_pipe_def socks_enqueue_def socks_get_req_None_iff split: if_splits)
    with assms(2,4) z show ?thesis by (simp add: queue_ok_enqueue)
  qed
qed (use assms in \<open>auto simp: read_pipe_def\<close>)

lemma reap_silent: "\<forall>ev \<in> set (snd (reap q i)). silent_event ev"
proof (induction q i rule: reap.induct)
  case (1 q i)
  show ?case
  proof (cases "i < length q \<and> state (q ! i) = SOCKS_DELETE")
    case True
    let ?q = "fst (socks_unqueue i q)"
    from True "1.IH"(1) have "?q \<noteq> [] \<Longrightarrow> \<forall>ev \<in> set (snd (reap ?q 1)). silent_event ev"
      by simp
    moreover have "\<forall>ev \<in> set (snd (socks_unqueue i q)). silent_event ev"
      by (simp add: socks_unqueue_def)
    ultimately show ?thesis
      using True by (subst reap.simps) (auto simp: Let_def split: prod.splits)
  next
    case False
    then show ?thesis
      using "1.IH"(2) by (subst reap.simps) auto
  qed
qed

lemma queue_ok_subseq:
  assumes ok: "queue_ok h q tr" and sub: "subseq q' q"
  shows "queue_ok h q' tr"
proof -
  from sub have sets: "set q' \<subseteq> set q" by (rule list_emb_set [THEN subsetI]) auto
  have "int c \<le> SOCKS_MAX_RETRY h" if "a \<notin> addr ` set q'" "attempts a tr = Some (0, c)" for a c
  proof (cases "a \<in> addr ` set q")
    case False
    with ok that(2) show ?thesis by (auto simp: queue_ok_def)
  next
    case True
    then obtain sq where sq: "sq \<in> set q" "addr sq = a" by auto
    with ok obtain c' where "attempts a tr = Some (perm sq, c')" "entry_ok h sq c'"
      by (auto simp: queue_ok_def)
    with that(2) show ?thesis by (auto simp: entry_ok_def)
  qed
  with ok sets distinct_addr_subseq [OF sub] show ?thesis
    by (auto simp: queue_ok_def)
qed

lemma reactor_iteration_queue_ok:
  assumes it: "reactor_iteration h cnf ie (q, m) = Inr ((q', m'), evs)"
    and ok: "queue_ok h q tr" and wr: "written_here (pipe_ret ie)" and lim: "0 \<le> SOCKS_MAX_RETRY h"
  shows "queue_ok h q' (tr @ evs)"
proof -
  obtain q1 s1 evsA where A: "phaseA h cnf (time1 ie) (envA ie) 0 q
      (MFD_SET_rset (socksfd0 cnf) \<lparr>rset = [], wset = [], maxfd = m\<rparr>) = (q1, s1, evsA)"
    by (metis prod_cases3)
  from ok have "distinct (map addr q)" by (simp add: queue_ok_def)
  from phaseA_tracks [OF A this]
  have "list_all2 (tracks h evsA) q q1" "foreign (addr ` set q) evsA" by auto
  with ok have ok1: "queue_ok h q1 (tr @ evsA)"
    by (rule queue_ok_step)
  show ?thesis
  proof (cases "maxfd (oc_select0 (select_ret ie) s1) = - 1")
    case True
    with it A ok1 show ?thesis
      by (auto simp: reactor_iteration_def split: if_splits)
  next
    case False
    with it A obtain q2 s3 evsP q3 s4 evsB where
      P: "check_pipe cnf ie q1 (oc_select0 (select_ret ie) s1) = Inr (q2, s3, evsP)"
      and B: "phaseB h cnf (envW ie) (envR ie) 0 q2 s3 = Inr (q3, s4, evsB)"
      and D: "q' = fst (reap q3 0)"
      and evs: "evs = evsA @ evsP @ evsB @ snd (reap q3 0)"
      by (auto simp: reactor_iteration_def split: if_splits sum.splits prod.splits)
    from P ok1 wr lim have ok2: "queue_ok h q2 ((tr @ evsA) @ evsP)"
      by (auto simp: check_pipe_def queue_ok_silent split: if_splits sum.splits
            dest: read_pipe_queue_ok)
    then have "distinct (map addr q2)" by (simp add: queue_ok_def)
    from phaseB_tracks [OF B this]
    have "list_all2 (tracks h evsB) q2 q3" "foreign (addr ` set q2) evsB" by auto
    with ok2 have "queue_ok h q3 (((tr @ evsA) @ evsP) @ evsB)"
      by (rule queue_ok_step)
    then have "queue_ok h q3 ((((tr @ evsA) @ evsP) @ evsB) @ snd (reap q3 0))"
      using reap_silent by (rule queue_ok_silent)
    then have "queue_ok h (fst (reap q3 0)) ((((tr @ evsA) @ evsP) @ evsB) @ snd (reap q3 0))"
      using subseq_reap by (rule queue_ok_subseq)
    with D evs show ?thesis by simp
  qed
qed

lemma socks_connector_sel_queue_ok:
  assumes "socks_connector_sel h cnf ies st = (r, st', evs)" "queue_ok h (fst st) tr"
    "\<forall>ie \<in> set ies. written_here (pipe_ret ie)" "0 \<le> SOCKS_MAX_RETRY h"
  shows "queue_ok h (fst st') (tr @ evs)"
  using assms
proof (induction ies arbitrary: st r st' evs tr)
  case Nil
  then show ?case by simp
next
  case (Cons ie ies)
  show ?case
  proof (cases "reactor_iteration h cnf ie st")
    case (Inl x)
    with Cons.prems show ?thesis by simp
  next
    case (Inr y)
    obtain st1 evs1 where y: "y = (st1, evs1)" by (cases y)
    with Inr Cons.prems obtain evs2 where
      rest: "socks_connector_sel h cnf ies st1 = (r, st', evs2)" and evs: "evs = evs1 @ evs2"
      by (auto split: prod.splits)
    from Inr y Cons.prems have "queue_ok h (fst st1) (tr @ evs1)"
      using reactor_iteration_queue_ok [of h cnf ie "fst st" "snd st" "fst st1" "snd st1" evs1 tr]
      by simp
    with Cons.IH [OF rest, of "tr @ evs1"] Cons.prems evs show ?thesis by simp
  qed
qed

lemma queue_ok_bound:
  assumes "queue_ok h q tr" "attempts a tr = Some (0, c)"
  shows "int c \<le> SOCKS_MAX_RETRY h"
proof (cases "a \<in> addr ` set q")
  case False
  with assms show ?thesis by (auto simp: queue_ok_def)
next
  case True
  then obtain sq where sq: "sq \<in> set q" "addr sq = a" by auto
  with assms(1) obtain c' where "attempts a tr = Some (perm sq, c')" "entry_ok h sq c'"
    by (auto simp: queue_ok_def)
  with assms(2) show ?thesis by (auto simp: entry_ok_def)
qed

text \<open>
  Claim C4. Let the reactor start with the empty queue and run through any number of
  complete iterations, in whatever environment, with the pipe carrying records as the
  writers of this file make them, and let \<^verbatim>\<open>SOCKS_MAX_RETRY\<close> not be negative. Then
  for every address whose latest request entered the queue as a temporary one
  (\<^verbatim>\<open>perm == 0\<close>), the number of \<^verbatim>\<open>connect\<close> calls made for that request, up to
  its removal or up to now, is at most \<^verbatim>\<open>SOCKS_MAX_RETRY + 1\<close>. This covers the runs
  through the DNS probe, where the retry counter is reset to 0 (on entering
  \<^verbatim>\<open>SOCKS_DNS_SENT\<close> and on a DNS answer) or set to 1 (on giving up). The invariant
  \<open>queue_ok\<close> of the proof shows that the number is in fact at most
  \<^verbatim>\<open>SOCKS_MAX_RETRY\<close>.
\<close>

theorem temporary_request_attempts_bounded:
  assumes "0 \<le> SOCKS_MAX_RETRY h"
    and "\<forall>ie \<in> set ies. written_here (pipe_ret ie)"
    and "socks_connector_sel h cnf ies ([], m) = (r, st, evs)"
    and "attempts a evs = Some (0, c)"
  shows "int c \<le> SOCKS_MAX_RETRY h + 1"
proof -
  have "queue_ok h [] []" by (simp add: queue_ok_def attempts_def)
  with assms(1-3) have "queue_ok h (fst st) ([] @ evs)"
    by (intro socks_connector_sel_queue_ok [of h cnf ies "([], m)" r st evs]) auto
  with assms(4) have "int c \<le> SOCKS_MAX_RETRY h"
    by (auto dest: queue_ok_bound)
  then show ?thesis by simp
qed

text \<open>A run: a temporary request for the address 1 is queued; three times a socket is
  made and \<^verbatim>\<open>connect\<close> fails; the fourth pass removes the request.\<close>

lemma failing_run:
  "socks_connector_sel example_h example_cnf
     [enqueue_iter 1, failing_iter, failing_iter, failing_iter, failing_iter] ([], 0)
   = (None, ([], 0),
      [Malloc (zero_SocksQueue\<lparr>addr := 1\<rparr>), Connect 1 5, Close 5, Connect 1 5, Close 5,
       Connect 1 5, Close 5, Free 1])"
  by (simp add: reactor_iteration_def quiet_iter_def example_h_def example_cnf_def
        quiet_env_def enqueue_iter_def failing_iter_def zero_SocksQueue_def phaseA_entry_def
        phaseA_new_def new_connect_def socks_tcp_connect_def socks_reschedule_def
        socks_reset_def MFD_SET_rset_def MFD_SET_wset_def oc_select0_def check_pipe_def
        read_pipe_def socks_enqueue_def reap.simps socks_unqueue_def get_hostname_def Let_def)

theorem temporary_request_attempts_bounded_witness:
  "attempts 1 (snd (snd (socks_connector_sel example_h example_cnf
       [enqueue_iter 1, failing_iter, failing_iter, failing_iter, failing_iter] ([], 0))))
     = Some (0, 3)
   \<and> int 3 \<le> SOCKS_MAX_RETRY example_h + 1"
proof -
  have a: "attempts 1 [Malloc (zero_SocksQueue\<lparr>addr := 1\<rparr>), Connect 1 5, Close 5,
       Connect 1 5, Close 5, Connect 1 5, Close 5, Free 1] = Some (0, 3)"
    by (simp add: attempts_def count_event_def zero_SocksQueue_def)
  have w: "\<forall>ie \<in> set [enqueue_iter 1, failing_iter, failing_iter, failing_iter, failing_iter].
             written_here (pipe_ret ie)"
    by (simp add: written_here_def enqueue_iter_def failing_iter_def quiet_iter_def
          zero_SocksQueue_def)
  have m: "0 \<le> SOCKS_MAX_RETRY example_h" by (simp add: example_h_def)
  from temporary_request_attempts_bounded [OF m w failing_run a] failing_run a
  show ?thesis by simp
qed

end
